theory Spec2Isabelle
  imports Complex_Main
begin

section \<open>Data model\<close>

text \<open>
  The plugin is one Python class, \<^verbatim>\<open>MyPlugin\<close> in \<^verbatim>\<open>main.py\<close>. Its methods are
  embedded as HOL functions that take the parts of \<^verbatim>\<open>self\<close> and of the outside world
  they read, and return what they return together with the new usage-record mapping and the
  list of outward calls they make, in program order.

  Exceptions are values. The type below stands for instances of Python's \<^verbatim>\<open>Exception\<close>
  with their \<^verbatim>\<open>str(e)\<close> text; \<^verbatim>\<open>ConnectionError\<close> and \<^verbatim>\<open>TimeoutError\<close> are kept
  apart from \<^verbatim>\<open>OSError\<close> (of which \<^verbatim>\<open>IOError\<close> is an alias) because the source
  names them in separate \<^verbatim>\<open>except\<close> clauses. \<^verbatim>\<open>ZeroDivisionError\<close> and
  \<^verbatim>\<open>OverflowError\<close> are what the division of two integers raises. System-exiting
  exceptions outside \<^verbatim>\<open>Exception\<close> (interpreter shutdown, task cancellation) are not
  modelled.
\<close>

datatype exn =
    KeyError string
  | OSError string
  | ConnectionError string
  | TimeoutError string
  | ZeroDivisionError string
  | OverflowError string
  | OtherException string

text \<open>
  A usage record is the JSON object \<^verbatim>\<open>{"timestamp": ..., "count": ...}\<close>. A record read
  back from the file may lack a key: the source reads the timestamp with
  \<^verbatim>\<open>.get("timestamp", 0)\<close> and the count with \<^verbatim>\<open>["count"]\<close>, so both fields are optional
  here and a missing count is a \<^verbatim>\<open>KeyError\<close>.
\<close>

record usage_record =
  timestamp :: "int option"
  count :: "int option"

type_synonym records = "string \<rightharpoonup> usage_record"

text \<open>
  The rate-limit configuration is the dict \<^verbatim>\<open>config.get("rate_limit", {})\<close>. Every key is
  optional. \<^verbatim>\<open>user_limits\<close> and \<^verbatim>\<open>group_limits\<close> are tested with
  \<^verbatim>\<open>isinstance(..., list)\<close>, and their items with \<^verbatim>\<open>isinstance(item, dict)\<close>; an item
  that is a dict is read at the keys \<^verbatim>\<open>user_id\<close>, \<^verbatim>\<open>group_id\<close> and \<^verbatim>\<open>limit\<close>.
\<close>

record limit_dict =
  d_user_id :: "string option"
  d_group_id :: "string option"
  d_limit :: "int option"

datatype json_item = NotDict | Dict limit_dict

datatype limits = LimitsAbsent | LimitsNotList | LimitsList "json_item list"

record rate_limit =
  enabled :: "bool option"
  user_limits :: limits
  group_limits :: limits
  default_limit :: "int option"
  reset_interval_minutes :: "int option"

text \<open>
  Of the event, the handlers read the sender id (a string), the group id (a string that is
  empty in a private chat, or \<^verbatim>\<open>None\<close>) and the message chain. An image component carries
  the outcome of its \<^verbatim>\<open>convert_to_base64()\<close> call; a reply component carries its chain,
  \<^verbatim>\<open>None\<close> when it has none.
\<close>

datatype chain_comp = ChainImage "exn + string" | ChainOther

datatype msg_comp =
    MsgImage "exn + string"
  | MsgReply "chain_comp list option"
  | MsgOther

record event =
  sender_id :: string
  group_id :: "string option"
  message_obj :: "msg_comp list option"

text \<open>
  The user-facing texts are Chinese f-strings. Each template of the source is one constructor,
  whose arguments are the interpolated values:
  \<^item> \<open>NoMessage\<close>: the empty string (lines 99, 127), the only falsy message;
  \<^item> \<open>LimitReached limit\<close>: line 140, ``you have reached the drawing limit (\<open>limit\<close> times)'';
  \<^item> \<open>UserDrawOk user_id remaining\<close>: line 150, ``user (\<open>user_id\<close>) drawing succeeded, you
    have \<open>remaining\<close> draws left'';
  \<^item> \<open>DrawOk remaining\<close>: line 152, the same without the user id;
  \<^item> \<open>GenFailed\<close>: line 258; \<open>GenFailedExc e\<close>: line 270, with \<^verbatim>\<open>str(e)\<close>;
  \<^item> \<open>NeedImage\<close>: line 367; \<open>FigureDone\<close>: line 409;
  \<^item> \<open>FigureFailed\<close>: line 402; \<open>FigureFailedExc e\<close>: line 414;
  \<^item> \<open>ResetDone\<close>: line 422.
\<close>

datatype message =
    NoMessage
  | LimitReached int
  | UserDrawOk string int
  | DrawOk int
  | GenFailed
  | GenFailedExc exn
  | NeedImage
  | FigureDone
  | FigureFailed
  | FigureFailedExc exn
  | ResetDone

text \<open>\<^verbatim>\<open>limit_type\<close> is \<^verbatim>\<open>None\<close>, or one of two Chinese words for ``user'' and ``group''.\<close>

datatype limit_type = UserLimit | GroupLimit

text \<open>
  Chat components and handler results. \<open>FromFileSystem\<close> and \<open>FromURL\<close> are the host's
  \<^verbatim>\<open>Image.fromFileSystem\<close> and \<^verbatim>\<open>Image.fromURL\<close>.
\<close>

datatype image = FromFileSystem string | FromURL string

datatype component = ImageComp image | Plain message

datatype result = PlainResult message | ChainResult "component list"

text \<open>The two prompts sent to the generation client: the caller's description, or the
  fixed figure prompt of lines 372 to 392.\<close>

datatype prompt = Description string | FigurePrompt

text \<open>
  Outward calls, in program order. \<open>SaveUsageRecords m\<close> is a call of
  \<^verbatim>\<open>_save_usage_records\<close> while the in-memory mapping is \<open>m\<close>; \<open>Uncaught e\<close> ends the
  trace of a handler that lets \<open>e\<close> escape. Logging is not recorded.
\<close>

datatype effect =
    SaveUsageRecords records
  | LoadGlobalConfig
  | GenerateImage prompt "string list"
  | SendFile string "string option" "int option"
  | ConvertToWebLink string
  | Yield result
  | Uncaught exn

section \<open>The rate limiter\<close>

text \<open>Python truthiness of a value that is a string or \<^verbatim>\<open>None\<close>.\<close>

fun truthy :: "string option \<Rightarrow> bool" where
  "truthy None = False"
| "truthy (Some s) = (s \<noteq> [])"

text \<open>
  The filters of the generator expressions at lines 109 and 119:
  \<^verbatim>\<open>isinstance(item, dict) and item.get("user_id") == user_id\<close>, and the same for
  \<^verbatim>\<open>group_id\<close>. The sender id is a string; the group id is compared as it is.
\<close>

fun user_match :: "string \<Rightarrow> json_item \<Rightarrow> bool" where
  "user_match uid NotDict = False"
| "user_match uid (Dict d) = (d_user_id d = Some uid)"

fun group_match :: "string option \<Rightarrow> json_item \<Rightarrow> bool" where
  "group_match gid NotDict = False"
| "group_match gid (Dict d) = (d_group_id d = gid)"

text \<open>\<^verbatim>\<open>cfg.get("limit", self.rate_limit_config.get("default_limit", 10))\<close>, lines 111 and 121.\<close>

definition limit_of :: "rate_limit \<Rightarrow> limit_dict \<Rightarrow> int" where
  "limit_of cfg d =
    (case d_limit d of
       None \<Rightarrow> (case default_limit cfg of None \<Rightarrow> 10 | Some l \<Rightarrow> l)
     | Some l \<Rightarrow> l)"

text \<open>
  Lines 104 to 127 of \<^verbatim>\<open>_check_and_update_limit\<close>: the pair \<^verbatim>\<open>(limit, limit_type)\<close>, and
  \<open>None\<close> when \<^verbatim>\<open>limit_type\<close> is still \<^verbatim>\<open>None\<close> at line 126. \<^verbatim>\<open>next(..., None)\<close> over
  a generator expression is \<^const>\<open>find\<close>. A dict it returns holds the key it was matched on,
  so it is truthy at lines 110 and 120. A missing \<^verbatim>\<open>user_limits\<close> or \<^verbatim>\<open>group_limits\<close>
  is the empty list; one that is not a list is only logged.
\<close>

definition resolve_limit :: "rate_limit \<Rightarrow> event \<Rightarrow> (int \<times> limit_type) option" where
  "resolve_limit cfg ev =
    (let from_user =
           (case user_limits cfg of
              LimitsAbsent \<Rightarrow> None
            | LimitsNotList \<Rightarrow> None
            | LimitsList items \<Rightarrow>
                (case find (user_match (sender_id ev)) items of
                   Some (Dict d) \<Rightarrow> Some (limit_of cfg d, UserLimit)
                 | _ \<Rightarrow> None))
     in case from_user of
          Some r \<Rightarrow> Some r
        | None \<Rightarrow>
            if truthy (group_id ev) then
              (case group_limits cfg of
                 LimitsAbsent \<Rightarrow> None
               | LimitsNotList \<Rightarrow> None
               | LimitsList items \<Rightarrow>
                   (case find (group_match (group_id ev)) items of
                      Some (Dict d) \<Rightarrow> Some (limit_of cfg d, GroupLimit)
                    | _ \<Rightarrow> None))
            else None)"

text \<open>Line 131: the record key.\<close>

definition record_key :: "event \<Rightarrow> string" where
  "record_key ev =
    (if truthy (group_id ev) then ''group_'' @ the (group_id ev)
     else ''user_'' @ sender_id ev)"

text \<open>Lines 149 to 152: the message of a permitted draw.\<close>

definition success_message :: "limit_type \<Rightarrow> string \<Rightarrow> int \<Rightarrow> message" where
  "success_message ltype uid remaining =
    (if ltype = UserLimit then UserDrawOk uid remaining else DrawOk remaining)"

subsection \<open>The division of line 135\<close>

text \<open>
  \<^verbatim>\<open>(current_timestamp - ...) / 60\<close> divides two Python integers. The result is a float:
  the double nearest to the exact quotient, ties going to the even significand, and
  \<^verbatim>\<open>OverflowError\<close> when that is beyond the doubles. A double is kept here as the
  rational number it is. \<open>bit_length\<close> is \<^verbatim>\<open>int.bit_length\<close>; \<open>floor_log2 n d\<close> is the
  integer \<open>e\<close> with \<open>2 powi e \<le> n / d < 2 powi (e + 1)\<close>, for positive \<open>n\<close> and \<open>d\<close>; the
  doubles of that size are the multiples of \<open>2 powi (e - 52)\<close>, and those below
  \<open>2 powi (- 1022)\<close> are the multiples of \<open>2 powi (- 1074)\<close>.
\<close>

function bit_length :: "nat \<Rightarrow> nat" where
  "bit_length n = (if n = 0 then 0 else Suc (bit_length (n div 2)))"
  by pat_completeness auto
termination
  by (relation "measure id") auto

declare bit_length.simps [simp del]

definition floor_log2 :: "nat \<Rightarrow> nat \<Rightarrow> int" where
  "floor_log2 n d =
    (let k = int (bit_length n) - int (bit_length d)
     in if (2::rat) powi k * of_nat d \<le> of_nat n then k else k - 1)"

definition round_half_even :: "rat \<Rightarrow> int" where
  "round_half_even x =
    (let f = \<lfloor>x\<rfloor>; d = x - of_int f
     in if d < 1 / 2 then f
        else if 1 / 2 < d then f + 1
        else if even f then f else f + 1)"

definition int_true_div :: "int \<Rightarrow> int \<Rightarrow> exn + rat" where
  "int_true_div a b =
    (if b = 0 then Inl (ZeroDivisionError ''division by zero'')
     else if a = 0 then Inr 0
     else
       let q = of_int a / of_int b;
           e = max (floor_log2 (nat \<bar>a\<bar>) (nat \<bar>b\<bar>)) (- 1022);
           ulp = 2 powi (e - 52);
           r = of_int (round_half_even (q / ulp)) * ulp
       in if 2 powi 1024 \<le> \<bar>r\<bar>
          then Inl (OverflowError ''integer division result too large for a float'')
          else Inr r)"

text \<open>
  Lines 135 and 136: whether the minutes since the last draw exceed the interval. The float
  is compared with the integer interval by value, as Python compares them.
\<close>

definition minutes_exceed :: "int \<Rightarrow> int \<Rightarrow> exn + bool" where
  "minutes_exceed seconds reset_interval =
    (case int_true_div seconds 60 of
       Inl e \<Rightarrow> Inl e
     | Inr time_since_last_draw \<Rightarrow> Inr (time_since_last_draw > of_int reset_interval))"

subsection \<open>The check\<close>

text \<open>
  Lines 129 to 154 of \<^verbatim>\<open>_check_and_update_limit\<close>: the check against a resolved limit,
  given the clock reading of line 130. The result is the returned pair, the mapping after the
  call and the calls made, or the exception that line 135 or line 139 raises.
\<close>

definition apply_limit ::
  "rate_limit \<Rightarrow> event \<Rightarrow> int \<Rightarrow> records \<Rightarrow> int \<Rightarrow> limit_type \<Rightarrow>
     exn + ((bool \<times> message) \<times> records \<times> effect list)" where
  "apply_limit cfg ev current_timestamp recs limit ltype =
    (let reset_interval =
           (case reset_interval_minutes cfg of None \<Rightarrow> 1440 | Some r \<Rightarrow> r);
         key = record_key ev;
         fresh = \<lparr>timestamp = Some current_timestamp, count = Some 0\<rparr>;
         stored = (case recs key of None \<Rightarrow> fresh | Some r \<Rightarrow> r)
     in (case minutes_exceed
                (current_timestamp - (case timestamp stored of None \<Rightarrow> 0 | Some ts \<Rightarrow> ts))
                reset_interval of
           Inl e \<Rightarrow> Inl e
         | Inr expired \<Rightarrow>
            (let user_record = (if expired then fresh else stored)
             in (case count user_record of
                   None \<Rightarrow> Inl (KeyError ''count'')
                 | Some c \<Rightarrow>
                     if c \<ge> limit then Inr ((False, LimitReached limit), recs, [])
                     else
                       let user_record = user_record
                             \<lparr>count := Some (c + 1), timestamp := Some current_timestamp\<rparr>;
                           recs' = recs(key \<mapsto> user_record);
                           remaining = limit - (c + 1)
                       in Inr ((True, success_message ltype (sender_id ev) remaining),
                               recs', [SaveUsageRecords recs'])))))"

text \<open>
  \<^verbatim>\<open>_check_and_update_limit\<close>: the test of line 98, the resolution of the limit, the
  early return of line 126, and the check against the limit.
\<close>

definition check_and_update_limit ::
  "rate_limit \<Rightarrow> event \<Rightarrow> int \<Rightarrow> records \<Rightarrow>
     exn + ((bool \<times> message) \<times> records \<times> effect list)" where
  "check_and_update_limit cfg ev current_timestamp recs =
    (if \<not> (case enabled cfg of None \<Rightarrow> False | Some b \<Rightarrow> b)
     then Inr ((True, NoMessage), recs, [])
     else
       (case resolve_limit cfg ev of
          None \<Rightarrow> Inr ((True, NoMessage), recs, [])
        | Some (limit, ltype) \<Rightarrow> apply_limit cfg ev current_timestamp recs limit ltype))"

section \<open>Delivery\<close>

text \<open>
  The plugin fields the handlers read, and the collaborators' answers. \<open>now\<close> is the
  reading of \<^verbatim>\<open>datetime.now()\<close> at line 130. \<open>generate_image_openrouter\<close> raises or
  returns the pair \<^verbatim>\<open>(image_url, image_path)\<close>, either of which may be \<^verbatim>\<open>None\<close> or
  empty; \<open>send_file\<close> raises or returns the path on the companion server;
  \<open>convert_to_web_link\<close> is the call on the image component made from a path, and
  \<open>from_url\<close> is \<^verbatim>\<open>Image.fromURL\<close>, which the host lets raise on a string it rejects.
\<close>

record plugin =
  rate_limit_config :: rate_limit
  usage_records :: records
  nap_server_address :: "string option"
  nap_server_port :: "int option"

record env =
  now :: int
  generate_image_openrouter :: "prompt \<Rightarrow> string list \<Rightarrow> exn + (string option \<times> string option)"
  send_file :: "string \<Rightarrow> string option \<Rightarrow> int option \<Rightarrow> exn + string"
  callback_api_base :: "string option"
  convert_to_web_link :: "string \<Rightarrow> exn + string"
  from_url :: "string \<Rightarrow> exn + image"

text \<open>
  The three \<^verbatim>\<open>except\<close> clauses of lines 177 to 185, in order. \<^verbatim>\<open>ConnectionError\<close> and
  \<^verbatim>\<open>TimeoutError\<close> are subclasses of \<^verbatim>\<open>OSError\<close>, so the first clause takes them.
\<close>

fun callback_fallback :: "exn \<Rightarrow> string \<Rightarrow> image" where
  "callback_fallback (OSError m) image_path = FromFileSystem image_path"
| "callback_fallback (ConnectionError m) image_path = FromFileSystem image_path"
| "callback_fallback (TimeoutError m) image_path = FromFileSystem image_path"
| "callback_fallback e image_path = FromFileSystem image_path"

definition send_image_with_callback_api :: "env \<Rightarrow> string \<Rightarrow> image \<times> effect list" where
  "send_image_with_callback_api env image_path =
    (if \<not> truthy (callback_api_base env) then (FromFileSystem image_path, [])
     else
       (case convert_to_web_link env image_path of
          Inl e \<Rightarrow> (callback_fallback e image_path, [ConvertToWebLink image_path])
        | Inr download_url \<Rightarrow>
            (case from_url env download_url of
               Inl e \<Rightarrow> (callback_fallback e image_path, [ConvertToWebLink image_path])
             | Inr img \<Rightarrow> (img, [ConvertToWebLink image_path]))))"

section \<open>The handlers\<close>

text \<open>
  Lines 231 to 243 and 352 to 364: the base64 texts of the images of the message and of the
  replies it quotes. A conversion that raises is logged and skipped.
\<close>

fun harvest_chain :: "chain_comp list \<Rightarrow> string list" where
  "harvest_chain [] = []"
| "harvest_chain (ChainImage (Inr b) # cs) = b # harvest_chain cs"
| "harvest_chain (ChainImage (Inl e) # cs) = harvest_chain cs"
| "harvest_chain (ChainOther # cs) = harvest_chain cs"

fun harvest :: "msg_comp list \<Rightarrow> string list" where
  "harvest [] = []"
| "harvest (MsgImage (Inr b) # cs) = b # harvest cs"
| "harvest (MsgImage (Inl e) # cs) = harvest cs"
| "harvest (MsgReply None # cs) = harvest cs"
| "harvest (MsgReply (Some chain) # cs) = harvest_chain chain @ harvest cs"
| "harvest (MsgOther # cs) = harvest cs"

definition reference_images :: "event \<Rightarrow> string list" where
  "reference_images ev = (case message_obj ev of None \<Rightarrow> [] | Some m \<Rightarrow> harvest m)"

text \<open>Lines 261 and 405: whether the image goes through the companion server.\<close>

definition uses_nap_server :: "plugin \<Rightarrow> bool" where
  "uses_nap_server self =
    (truthy (nap_server_address self) \<and> nap_server_address self \<noteq> Some ''localhost'')"

text \<open>Lines 264 to 266 of \<^verbatim>\<open>pic_gen\<close>.\<close>

definition pic_gen_reply :: "env \<Rightarrow> message \<Rightarrow> string \<Rightarrow> effect list" where
  "pic_gen_reply env message image_path =
    (let (image_component, effs) = send_image_with_callback_api env image_path;
         chain = (if message \<noteq> NoMessage then [ImageComp image_component, Plain message]
                  else [ImageComp image_component])
     in effs @ [Yield (ChainResult chain)])"

text \<open>
  The tool \<^verbatim>\<open>gemini-pic-gen\<close>. The limit check is outside the \<^verbatim>\<open>try\<close>, so an exception
  of the check escapes; everything raised from line 251 on is caught at line 268.
\<close>

definition pic_gen :: "env \<Rightarrow> plugin \<Rightarrow> event \<Rightarrow> string \<Rightarrow> bool \<Rightarrow> plugin \<times> effect list" where
  "pic_gen env self ev image_description use_reference_images =
    (case check_and_update_limit (rate_limit_config self) ev (now env) (usage_records self) of
       Inl e \<Rightarrow> (self, [Uncaught e])
     | Inr ((can_draw, message), recs, effs) \<Rightarrow>
        (let self' = self\<lparr>usage_records := recs\<rparr> in
         if \<not> can_draw then (self', effs @ [Yield (PlainResult message)])
         else
          (let input_images = (if use_reference_images then reference_images ev else []);
               request = Description image_description
           in (self', effs @ [LoadGlobalConfig, GenerateImage request input_images] @
                (case generate_image_openrouter env request input_images of
                   Inl e \<Rightarrow> [Yield (PlainResult (GenFailedExc e))]
                 | Inr (image_url, image_path) \<Rightarrow>
                     if \<not> truthy image_url \<or> \<not> truthy image_path
                     then [Yield (PlainResult GenFailed)]
                     else if uses_nap_server self then
                       (case send_file env (the image_path)
                               (nap_server_address self) (nap_server_port self) of
                          Inl e \<Rightarrow>
                            [SendFile (the image_path)
                               (nap_server_address self) (nap_server_port self),
                             Yield (PlainResult (GenFailedExc e))]
                        | Inr remote \<Rightarrow>
                            SendFile (the image_path)
                              (nap_server_address self) (nap_server_port self)
                            # pic_gen_reply env message remote)
                     else pic_gen_reply env message (the image_path))))))"

text \<open>Lines 408 to 410 of \<^verbatim>\<open>figure_transform\<close>.\<close>

definition figure_reply :: "env \<Rightarrow> message \<Rightarrow> string \<Rightarrow> effect list" where
  "figure_reply env message image_path =
    (let (image_component, effs) = send_image_with_callback_api env image_path;
         result_chain =
           (if message \<noteq> NoMessage
            then [Plain FigureDone, ImageComp image_component, Plain message]
            else [Plain FigureDone, ImageComp image_component])
     in effs @ [Yield (ChainResult result_chain)])"

text \<open>The command that turns the sender's picture into a figure.\<close>

definition figure_transform :: "env \<Rightarrow> plugin \<Rightarrow> event \<Rightarrow> plugin \<times> effect list" where
  "figure_transform env self ev =
    (case check_and_update_limit (rate_limit_config self) ev (now env) (usage_records self) of
       Inl e \<Rightarrow> (self, [Uncaught e])
     | Inr ((can_draw, message), recs, effs) \<Rightarrow>
        (let self' = self\<lparr>usage_records := recs\<rparr> in
         if \<not> can_draw then (self', effs @ [Yield (PlainResult message)])
         else
          (let input_images = reference_images ev in
           if input_images = []
           then (self', effs @ [LoadGlobalConfig, Yield (PlainResult NeedImage)])
           else
            (self', effs @ [LoadGlobalConfig, GenerateImage FigurePrompt input_images] @
                (case generate_image_openrouter env FigurePrompt input_images of
                   Inl e \<Rightarrow> [Yield (PlainResult (FigureFailedExc e))]
                 | Inr (image_url, image_path) \<Rightarrow>
                     if \<not> truthy image_url \<or> \<not> truthy image_path
                     then [Yield (PlainResult FigureFailed)]
                     else if uses_nap_server self then
                       (case send_file env (the image_path)
                               (nap_server_address self) (nap_server_port self) of
                          Inl e \<Rightarrow>
                            [SendFile (the image_path)
                               (nap_server_address self) (nap_server_port self),
                             Yield (PlainResult (FigureFailedExc e))]
                        | Inr remote \<Rightarrow>
                            SendFile (the image_path)
                              (nap_server_address self) (nap_server_port self)
                            # figure_reply env message remote)
                     else figure_reply env message (the image_path))))))"

text \<open>The admin command \<^verbatim>\<open>reset_images\<close>, lines 420 to 422.\<close>

definition reset_images_command :: "plugin \<Rightarrow> plugin \<times> effect list" where
  "reset_images_command self =
    (let self' = self\<lparr>usage_records := Map.empty\<rparr>
     in (self', [SaveUsageRecords (usage_records self'), Yield (PlainResult ResetDone)]))"

text \<open>
  Checks of one event made one after the other, at the given clock readings, each on the
  mapping the one before left. The sequence stops at a check that raises.
\<close>

fun check_sequence ::
  "rate_limit \<Rightarrow> event \<Rightarrow> int list \<Rightarrow> records \<Rightarrow> (exn + (bool \<times> message)) list" where
  "check_sequence cfg ev [] recs = []"
| "check_sequence cfg ev (t # ts) recs =
    (case check_and_update_limit cfg ev t recs of
       Inl e \<Rightarrow> [Inl e]
     | Inr (res, recs', effs) \<Rightarrow> Inr res # check_sequence cfg ev ts recs')"

text \<open>The same for checks of any events, each with its clock reading.\<close>

fun check_run ::
  "rate_limit \<Rightarrow> (event \<times> int) list \<Rightarrow> records \<Rightarrow> (exn + (bool \<times> message)) list" where
  "check_run cfg [] recs = []"
| "check_run cfg ((ev, t) # rest) recs =
    (case check_and_update_limit cfg ev t recs of
       Inl e \<Rightarrow> [Inl e]
     | Inr (res, recs', effs) \<Rightarrow> Inr res # check_run cfg rest recs')"

section \<open>Reading a run\<close>

text \<open>
  Checks of one event made one after the other are \<^const>\<open>check_sequence\<close> above. A list of
  clock readings stays within the window when the test of lines 135 and 136, made at each
  reading on the one before it, finds the interval not exceeded.
\<close>

fun within_window :: "rate_limit \<Rightarrow> int list \<Rightarrow> bool" where
  "within_window cfg (t1 # t2 # ts) =
     (minutes_exceed (t2 - t1)
          (case reset_interval_minutes cfg of None \<Rightarrow> 1440 | Some i \<Rightarrow> i) = Inr False
      \<and> within_window cfg (t2 # ts))"
| "within_window cfg ts = True"

text \<open>What a handler yielded, and which kind of call an entry of its trace is.\<close>

fun yields :: "effect list \<Rightarrow> result list" where
  "yields [] = []"
| "yields (Yield r # es) = r # yields es"
| "yields (e # es) = yields es"

fun is_send_file :: "effect \<Rightarrow> bool" where
  "is_send_file (SendFile p h q) = True"
| "is_send_file e = False"

fun is_convert :: "effect \<Rightarrow> bool" where
  "is_convert (ConvertToWebLink p) = True"
| "is_convert e = False"

fun is_save :: "effect \<Rightarrow> bool" where
  "is_save (SaveUsageRecords m) = True"
| "is_save e = False"

fun is_generate :: "effect \<Rightarrow> bool" where
  "is_generate (GenerateImage p imgs) = True"
| "is_generate e = False"

section \<open>Example inputs\<close>

text \<open>
  Configurations: a limit of two draws for user \<open>u1\<close> and of five for group \<open>g1\<close>; a limit
  of zero with a window of one minute; and the empty configuration, in which rate limiting
  is off. Events: \<open>u1\<close> in a private chat, \<open>u1\<close> and \<open>u2\<close> in group \<open>g1\<close>, \<open>u2\<close> in a
  private chat, and \<open>u1\<close> sending a picture and quoting a message with two more, the first
  of which cannot be converted. Plugins and collaborators: one whose user is at the limit,
  three that differ in the companion server address, one with the empty configuration; a
  generation client that returns no URL, one that returns both, one that raises.
\<close>

definition cfg_user2 :: rate_limit where
  "cfg_user2 = \<lparr>enabled = Some True,
      user_limits = LimitsList [Dict \<lparr>d_user_id = Some ''u1'', d_group_id = None, d_limit = Some 2\<rparr>],
      group_limits = LimitsList [NotDict, Dict \<lparr>d_user_id = None, d_group_id = Some ''g1'', d_limit = Some 5\<rparr>],
      default_limit = None, reset_interval_minutes = None\<rparr>"

definition cfg_zero :: rate_limit where
  "cfg_zero = \<lparr>enabled = Some True,
      user_limits = LimitsList [Dict \<lparr>d_user_id = Some ''u1'', d_group_id = None, d_limit = Some 0\<rparr>],
      group_limits = LimitsAbsent,
      default_limit = None, reset_interval_minutes = Some 1\<rparr>"

definition cfg_default :: rate_limit where
  "cfg_default = \<lparr>enabled = None, user_limits = LimitsAbsent, group_limits = LimitsAbsent,
      default_limit = None, reset_interval_minutes = None\<rparr>"

definition ev_private :: event where
  "ev_private = \<lparr>sender_id = ''u1'', group_id = Some [], message_obj = None\<rparr>"

definition ev_group :: event where
  "ev_group = \<lparr>sender_id = ''u1'', group_id = Some ''g1'', message_obj = None\<rparr>"

definition ev_other :: event where
  "ev_other = \<lparr>sender_id = ''u2'', group_id = Some ''g1'', message_obj = None\<rparr>"

definition ev_stranger :: event where
  "ev_stranger = \<lparr>sender_id = ''u2'', group_id = Some [], message_obj = None\<rparr>"

definition ev_picture :: event where
  "ev_picture = \<lparr>sender_id = ''u1'', group_id = Some [],
      message_obj = Some [MsgOther, MsgImage (Inr ''aGk=''),
        MsgReply (Some [ChainImage (Inl (OSError ''gone'')), ChainImage (Inr ''eW8='')])]\<rparr>"

definition plugin_at_limit :: plugin where
  "plugin_at_limit = \<lparr>rate_limit_config = cfg_user2,
      usage_records = [''user_u1'' \<mapsto> \<lparr>timestamp = Some 1000, count = Some 2\<rparr>],
      nap_server_address = None, nap_server_port = None\<rparr>"

definition plugin_fresh :: plugin where
  "plugin_fresh = \<lparr>rate_limit_config = cfg_user2, usage_records = Map.empty,
      nap_server_address = None, nap_server_port = None\<rparr>"

definition plugin_localhost :: plugin where
  "plugin_localhost = \<lparr>rate_limit_config = cfg_user2, usage_records = Map.empty,
      nap_server_address = Some ''localhost'', nap_server_port = Some 3658\<rparr>"

definition plugin_nap :: plugin where
  "plugin_nap = \<lparr>rate_limit_config = cfg_user2, usage_records = Map.empty,
      nap_server_address = Some ''10.0.0.2'', nap_server_port = Some 3658\<rparr>"

definition plugin_unlimited :: plugin where
  "plugin_unlimited = \<lparr>rate_limit_config = cfg_default, usage_records = Map.empty,
      nap_server_address = None, nap_server_port = None\<rparr>"

definition env_no_url :: env where
  "env_no_url = \<lparr>now = 1060,
      generate_image_openrouter = (\<lambda>p imgs. Inr (None, Some ''/tmp/a.png'')),
      send_file = (\<lambda>p h q. Inr ''/nap/a.png''),
      callback_api_base = None,
      convert_to_web_link = (\<lambda>p. Inr ''https://cb/a.png''),
      from_url = (\<lambda>u. Inr (FromURL u))\<rparr>"

definition env_ok :: env where
  "env_ok = \<lparr>now = 1060,
      generate_image_openrouter = (\<lambda>p imgs. Inr (Some ''https://img/a.png'', Some ''/tmp/a.png'')),
      send_file = (\<lambda>p h q. Inr ''/nap/a.png''),
      callback_api_base = Some ''https://cb'',
      convert_to_web_link = (\<lambda>p. Inl (TimeoutError ''slow'')),
      from_url = (\<lambda>u. Inr (FromURL u))\<rparr>"

definition env_raises :: env where
  "env_raises = \<lparr>now = 1060,
      generate_image_openrouter = (\<lambda>p imgs. Inl (OtherException ''quota'')),
      send_file = (\<lambda>p h q. Inr ''/nap/a.png''),
      callback_api_base = None,
      convert_to_web_link = (\<lambda>p. Inr ''https://cb/a.png''),
      from_url = (\<lambda>u. Inr (FromURL u))\<rparr>"

section \<open>The limit check, case by case\<close>

lemma minutes_exceed_iff:
  "((of_int a :: rat) / 60 > of_int r) \<longleftrightarrow> (a > 60 * r)"
proof -
  have "((of_int a :: rat) / 60 > of_int r) \<longleftrightarrow> (of_int r * 60 < (of_int a :: rat))"
    by (simp add: pos_less_divide_eq)
  also have "\<dots> \<longleftrightarrow> ((of_int (r * 60) :: rat) < of_int a)"
    by simp
  also have "\<dots> \<longleftrightarrow> (r * 60 < a)"
    by (simp only: of_int_less_iff)
  finally show ?thesis by (simp add: mult.commute)
qed

subsection \<open>The float quotient within range\<close>

lemma bit_length_le: "n < 2 ^ w \<Longrightarrow> bit_length n \<le> w"
proof (induction w arbitrary: n)
  case 0
  then show ?case by (simp add: bit_length.simps)
next
  case (Suc w)
  show ?case
  proof (cases "n = 0")
    case True
    then show ?thesis by (simp add: bit_length.simps)
  next
    case False
    from Suc.prems have "n div 2 < 2 ^ w" by simp
    from Suc.IH [OF this] False show ?thesis
      by (subst bit_length.simps) simp
  qed
qed

lemma bit_length_60: "bit_length 60 = 6"
  by (simp add: bit_length.simps)

lemma floor_log2_60_le:
  assumes "n < 2 ^ 52"
  shows "floor_log2 n 60 \<le> 46"
proof -
  from bit_length_le [OF assms] have "int (bit_length n) - 6 \<le> 46" by simp
  then show ?thesis
    by (simp add: floor_log2_def bit_length_60 Let_def)
qed

lemma round_half_even_le:
  assumes "x \<le> of_int M"
  shows "round_half_even x \<le> M"
proof -
  have f: "\<lfloor>x\<rfloor> \<le> M" using assms by (simp add: floor_le_iff)
  show ?thesis
  proof (cases "x = of_int M")
    case True
    then show ?thesis by (simp add: round_half_even_def)
  next
    case False
    with assms have "x < of_int M" by simp
    then have "\<lfloor>x\<rfloor> < M" by (simp add: floor_less_iff)
    then show ?thesis by (simp add: round_half_even_def Let_def)
  qed
qed

lemma round_half_even_near:
  "x - 1 / 2 \<le> of_int (round_half_even x) \<and> of_int (round_half_even x) \<le> x + 1 / 2"
proof -
  define f where "f = \<lfloor>x\<rfloor>"
  have a: "of_int f \<le> x" and b: "x < of_int f + 1"
    unfolding f_def by linarith+
  have r: "round_half_even x =
      (if x - of_int f < 1 / 2 then f
       else if 1 / 2 < x - of_int f then f + 1
       else if even f then f else f + 1)"
    by (simp add: round_half_even_def Let_def f_def)
  show ?thesis
    unfolding r using a b by (auto split: if_splits)
qed

lemma true_div_60_in_range:
  assumes rng: "\<bar>a\<bar> < 2 ^ 52"
  shows "\<exists>x. int_true_div a 60 = Inr x \<and> (\<forall>R. (of_int R < x) = (60 * R < a))"
proof (cases "a = 0")
  case True
  then show ?thesis by (simp add: int_true_div_def)
next
  case False
  define e where "e = max (floor_log2 (nat \<bar>a\<bar>) 60) (- 1022)"
  define j where "j = nat (52 - e)"
  define q :: rat where "q = of_int a / of_int 60"
  define n where "n = round_half_even (q * 2 ^ j)"
  define x :: rat where "x = of_int n / 2 ^ j"
  have "nat \<bar>a\<bar> < 2 ^ 52"
    using rng by (simp add: nat_less_iff)
  then have "floor_log2 (nat \<bar>a\<bar>) 60 \<le> 46"
    by (rule floor_log2_60_le)
  then have e46: "e \<le> 46" by (simp add: e_def)
  then have ej: "e - 52 = - int j" and j6: "6 \<le> j"
    by (simp_all add: j_def)
  have ulp: "(2::rat) powi (e - 52) = 1 / 2 ^ j"
    unfolding ej by (simp add: power_int_minus divide_inverse)
  have p64: "(64::rat) \<le> 2 ^ j"
    using power_increasing [OF j6, of "2::rat"] by simp
  then have pos: "(0::rat) < 2 ^ j" by simp
  have half: "1 / (2 * 2 ^ j) \<le> (1::rat) / 128"
    using p64 by (simp add: field_simps)
  have near: "q * 2 ^ j - 1 / 2 \<le> of_int n \<and> of_int n \<le> q * 2 ^ j + 1 / 2"
    unfolding n_def by (rule round_half_even_near)
  have lo: "q - 1 / 128 \<le> x"
  proof -
    from near have "(q * 2 ^ j - 1 / 2) / 2 ^ j \<le> x"
      unfolding x_def using pos by (simp add: divide_right_mono)
    moreover have "(q * 2 ^ j - 1 / 2) / 2 ^ j = q - 1 / (2 * 2 ^ j)"
      using pos by (simp add: field_simps)
    ultimately show ?thesis using half by linarith
  qed
  have hi: "x \<le> q + 1 / 128"
  proof -
    from near have "x \<le> (q * 2 ^ j + 1 / 2) / 2 ^ j"
      unfolding x_def using pos by (simp add: divide_right_mono)
    moreover have "(q * 2 ^ j + 1 / 2) / 2 ^ j = q + 1 / (2 * 2 ^ j)"
      using pos by (simp add: field_simps)
    ultimately show ?thesis using half by linarith
  qed
  have qb: "\<bar>q\<bar> < 2 ^ 52"
  proof -
    have "\<bar>q\<bar> = of_int \<bar>a\<bar> / 60" by (simp add: q_def)
    also have "\<dots> \<le> of_int \<bar>a\<bar>" by (simp add: field_simps)
    also have "\<dots> < of_int (2 ^ 52)" using rng by (simp only: of_int_less_iff)
    finally show ?thesis by simp
  qed
  have xb: "\<bar>x\<bar> < 2 ^ 1024"
  proof -
    from lo hi qb have "\<bar>x\<bar> < 2 ^ 52 + 1" by linarith
    also have "\<dots> < (2::rat) ^ 1024" by simp
    finally show ?thesis .
  qed
  have val: "int_true_div a 60 = Inr x"
  proof -
    have "of_int (round_half_even (rat_of_int a / rat_of_int 60 / 2 powi (e - 52)))
            * 2 powi (e - 52) = x"
      unfolding ulp by (simp add: x_def n_def q_def)
    with xb False show ?thesis
      by (simp add: int_true_div_def Let_def e_def [symmetric])
  qed
  have cmp: "(of_int R < x) = (60 * R < a)" for R
  proof (cases "60 * R < a")
    case True
    then have "60 * R + 1 \<le> a" by simp
    then have "of_int (60 * R + 1) \<le> (of_int a :: rat)" by (simp only: of_int_le_iff)
    then have "of_int R + 1 / 60 \<le> q" by (simp add: q_def field_simps)
    with lo have "of_int R < x" by linarith
    with True show ?thesis by simp
  next
    case False
    then have "a \<le> 60 * R" by simp
    then have "(of_int a :: rat) \<le> of_int (60 * R)" by (simp only: of_int_le_iff)
    then have "q \<le> of_int R" by (simp add: q_def field_simps)
    then have "q * 2 ^ j \<le> of_int R * 2 ^ j"
      using pos by (simp add: mult_right_mono)
    then have "q * 2 ^ j \<le> of_int (R * 2 ^ j)" by simp
    then have "n \<le> R * 2 ^ j" unfolding n_def by (rule round_half_even_le)
    then have "(of_int n :: rat) \<le> of_int (R * 2 ^ j)" by (simp only: of_int_le_iff)
    then have "x \<le> of_int R"
      unfolding x_def using pos by (simp add: field_simps)
    with False show ?thesis by simp
  qed
  from val cmp show ?thesis by blast
qed

lemma minutes_exceed_in_range:
  assumes "\<bar>a\<bar> < 2 ^ 52"
  shows "minutes_exceed a R = Inr (60 * R < a)"
proof -
  from true_div_60_in_range [OF assms]
  obtain x where "int_true_div a 60 = Inr x" and "\<And>R. (of_int R < x) = (60 * R < a)"
    by blast
  then show ?thesis by (simp add: minutes_exceed_def)
qed

lemma minutes_exceed_zero: "minutes_exceed 0 R = Inr (R < 0)"
  using minutes_exceed_in_range [of 0 R] by simp

subsection \<open>Outcomes of the check\<close>

lemma check_disabled:
  "\<not> (case enabled cfg of None \<Rightarrow> False | Some b \<Rightarrow> b) \<Longrightarrow>
     check_and_update_limit cfg ev t recs = Inr ((True, NoMessage), recs, [])"
  by (simp add: check_and_update_limit_def)

lemma check_unlimited:
  "resolve_limit cfg ev = None \<Longrightarrow>
     check_and_update_limit cfg ev t recs = Inr ((True, NoMessage), recs, [])"
  by (simp add: check_and_update_limit_def)

lemma check_limited:
  "enabled cfg = Some True \<Longrightarrow> resolve_limit cfg ev = Some (limit, ltype) \<Longrightarrow>
     check_and_update_limit cfg ev t recs = apply_limit cfg ev t recs limit ltype"
  by (simp add: check_and_update_limit_def)

lemma check_expired_raw:
  assumes "enabled cfg = Some True" "resolve_limit cfg ev = Some (limit, ltype)"
    and "recs (record_key ev) = Some r"
    and "minutes_exceed (t - (case timestamp r of None \<Rightarrow> 0 | Some x \<Rightarrow> x))
           (case reset_interval_minutes cfg of None \<Rightarrow> 1440 | Some i \<Rightarrow> i) = Inr True"
  shows "check_and_update_limit cfg ev t recs =
     (if 0 \<ge> limit then Inr ((False, LimitReached limit), recs, [])
      else Inr ((True, success_message ltype (sender_id ev) (limit - 1)),
                recs(record_key ev \<mapsto> \<lparr>timestamp = Some t, count = Some 1\<rparr>),
                [SaveUsageRecords (recs(record_key ev \<mapsto> \<lparr>timestamp = Some t, count = Some 1\<rparr>))]))"
  using assms by (simp add: check_and_update_limit_def apply_limit_def Let_def)

lemma check_within_raw:
  assumes "enabled cfg = Some True" "resolve_limit cfg ev = Some (limit, ltype)"
    and "recs (record_key ev) = Some r" "count r = Some c"
    and "minutes_exceed (t - (case timestamp r of None \<Rightarrow> 0 | Some x \<Rightarrow> x))
           (case reset_interval_minutes cfg of None \<Rightarrow> 1440 | Some i \<Rightarrow> i) = Inr False"
  shows "check_and_update_limit cfg ev t recs =
     (if c \<ge> limit then Inr ((False, LimitReached limit), recs, [])
      else Inr ((True, success_message ltype (sender_id ev) (limit - (c + 1))),
                recs(record_key ev \<mapsto> \<lparr>timestamp = Some t, count = Some (c + 1)\<rparr>),
                [SaveUsageRecords (recs(record_key ev \<mapsto> \<lparr>timestamp = Some t, count = Some (c + 1)\<rparr>))]))"
  using assms by (cases r) (simp add: check_and_update_limit_def apply_limit_def Let_def)

lemma check_raises:
  assumes "enabled cfg = Some True" "resolve_limit cfg ev = Some (limit, ltype)"
    and "recs (record_key ev) = Some r"
    and "minutes_exceed (t - (case timestamp r of None \<Rightarrow> 0 | Some x \<Rightarrow> x))
           (case reset_interval_minutes cfg of None \<Rightarrow> 1440 | Some i \<Rightarrow> i) = Inl e"
  shows "check_and_update_limit cfg ev t recs = Inl e"
  using assms by (simp add: check_and_update_limit_def apply_limit_def Let_def)

lemma check_expired:
  assumes "enabled cfg = Some True" "resolve_limit cfg ev = Some (limit, ltype)"
    and "recs (record_key ev) = Some r"
    and "(of_int (t - (case timestamp r of None \<Rightarrow> 0 | Some x \<Rightarrow> x)) :: rat) / 60
           > of_int (case reset_interval_minutes cfg of None \<Rightarrow> 1440 | Some i \<Rightarrow> i)"
    and "\<bar>t - (case timestamp r of None \<Rightarrow> 0 | Some x \<Rightarrow> x)\<bar> < 2 ^ 52"
  shows "check_and_update_limit cfg ev t recs =
     (if 0 \<ge> limit then Inr ((False, LimitReached limit), recs, [])
      else Inr ((True, success_message ltype (sender_id ev) (limit - 1)),
                recs(record_key ev \<mapsto> \<lparr>timestamp = Some t, count = Some 1\<rparr>),
                [SaveUsageRecords (recs(record_key ev \<mapsto> \<lparr>timestamp = Some t, count = Some 1\<rparr>))]))"
proof -
  from assms(4,5)
  have "minutes_exceed (t - (case timestamp r of None \<Rightarrow> 0 | Some x \<Rightarrow> x))
           (case reset_interval_minutes cfg of None \<Rightarrow> 1440 | Some i \<Rightarrow> i) = Inr True"
    by (simp add: minutes_exceed_in_range minutes_exceed_iff)
  with assms(1,2,3) show ?thesis by (rule check_expired_raw)
qed

lemma check_within:
  assumes "enabled cfg = Some True" "resolve_limit cfg ev = Some (limit, ltype)"
    and "recs (record_key ev) = Some r" "count r = Some c"
    and "\<not> (of_int (t - (case timestamp r of None \<Rightarrow> 0 | Some x \<Rightarrow> x)) :: rat) / 60
           > of_int (case reset_interval_minutes cfg of None \<Rightarrow> 1440 | Some i \<Rightarrow> i)"
    and "\<bar>t - (case timestamp r of None \<Rightarrow> 0 | Some x \<Rightarrow> x)\<bar> < 2 ^ 52"
  shows "check_and_update_limit cfg ev t recs =
     (if c \<ge> limit then Inr ((False, LimitReached limit), recs, [])
      else Inr ((True, success_message ltype (sender_id ev) (limit - (c + 1))),
                recs(record_key ev \<mapsto> \<lparr>timestamp = Some t, count = Some (c + 1)\<rparr>),
                [SaveUsageRecords (recs(record_key ev \<mapsto> \<lparr>timestamp = Some t, count = Some (c + 1)\<rparr>))]))"
proof -
  from assms(5,6)
  have "minutes_exceed (t - (case timestamp r of None \<Rightarrow> 0 | Some x \<Rightarrow> x))
           (case reset_interval_minutes cfg of None \<Rightarrow> 1440 | Some i \<Rightarrow> i) = Inr False"
    by (simp add: minutes_exceed_in_range minutes_exceed_iff)
  with assms(1,2,3,4) show ?thesis by (rule check_within_raw)
qed

lemma check_no_record:
  assumes "enabled cfg = Some True" "resolve_limit cfg ev = Some (limit, ltype)"
    and "recs (record_key ev) = None"
  shows "check_and_update_limit cfg ev t recs =
     (if 0 \<ge> limit then Inr ((False, LimitReached limit), recs, [])
      else Inr ((True, success_message ltype (sender_id ev) (limit - 1)),
                recs(record_key ev \<mapsto> \<lparr>timestamp = Some t, count = Some 1\<rparr>),
                [SaveUsageRecords (recs(record_key ev \<mapsto> \<lparr>timestamp = Some t, count = Some 1\<rparr>))]))"
  using assms
  by (simp add: check_and_update_limit_def apply_limit_def Let_def minutes_exceed_zero)

lemma usage_record_updated:
  "(r :: usage_record)\<lparr>count := c, timestamp := ts\<rparr> = \<lparr>timestamp = ts, count = c\<rparr>"
  by (cases r) simp

lemma check_permitted_increment:
  assumes en: "enabled cfg = Some True"
    and lim: "resolve_limit cfg ev = Some (limit, ltype)"
    and chk: "check_and_update_limit cfg ev t recs = Inr ((True, m), recs', effs)"
  shows "(\<exists>c. c < limit
            \<and> recs' = recs(record_key ev \<mapsto> \<lparr>timestamp = Some t, count = Some (c + 1)\<rparr>)
            \<and> (c = 0 \<or> (\<exists>r. recs (record_key ev) = Some r \<and> count r = Some c)))
         \<and> effs = [SaveUsageRecords recs']"
proof (cases "recs (record_key ev)")
  case None
  from check_no_record [of cfg ev limit ltype recs t] en lim None chk
  have "0 < limit \<and> recs' = recs(record_key ev \<mapsto> \<lparr>timestamp = Some t, count = Some (0 + 1)\<rparr>)
        \<and> effs = [SaveUsageRecords recs']"
    by (auto split: if_splits)
  then show ?thesis by blast
next
  case (Some r)
  show ?thesis
  proof (cases "minutes_exceed (t - (case timestamp r of None \<Rightarrow> 0 | Some x \<Rightarrow> x))
           (case reset_interval_minutes cfg of None \<Rightarrow> 1440 | Some i \<Rightarrow> i)")
    case (Inl e)
    from check_raises [of cfg ev limit ltype recs r t e] en lim Some Inl chk
    show ?thesis by simp
  next
    case (Inr expired)
    show ?thesis
    proof (cases expired)
      case True
      from check_expired_raw [of cfg ev limit ltype recs r t] en lim Some Inr True chk
      have "0 < limit
          \<and> recs' = recs(record_key ev \<mapsto> \<lparr>timestamp = Some t, count = Some (0 + 1)\<rparr>)
          \<and> effs = [SaveUsageRecords recs']"
        by (auto split: if_splits)
      then show ?thesis by blast
    next
      case False
      show ?thesis
      proof (cases "count r")
        case None
        with en lim Some Inr False chk show ?thesis
          by (simp add: check_and_update_limit_def apply_limit_def Let_def)
      next
        case (Some c)
        from check_within_raw [of cfg ev limit ltype recs r c t] en lim
          \<open>recs (record_key ev) = Some r\<close> Some Inr False chk
        have "c < limit
          \<and> recs' = recs(record_key ev \<mapsto> \<lparr>timestamp = Some t, count = Some (c + 1)\<rparr>)
          \<and> effs = [SaveUsageRecords recs']"
          by (auto split: if_splits)
        with Some \<open>recs (record_key ev) = Some r\<close> show ?thesis by blast
      qed
    qed
  qed
qed

lemma resolve_user_entry:
  assumes "user_limits cfg = LimitsList us"
    and "find (user_match (sender_id ev)) us = Some (Dict d)"
  shows "resolve_limit cfg ev = Some (limit_of cfg d, UserLimit)"
  using assms by (simp add: resolve_limit_def)

lemma resolve_group_entry:
  assumes "\<forall>us. user_limits cfg = LimitsList us \<longrightarrow> find (user_match (sender_id ev)) us = None"
    and "truthy (group_id ev)"
    and "group_limits cfg = LimitsList gs"
    and "find (group_match (group_id ev)) gs = Some (Dict d)"
  shows "resolve_limit cfg ev = Some (limit_of cfg d, GroupLimit)"
  using assms by (cases "user_limits cfg") (simp_all add: resolve_limit_def)

lemma resolve_no_entry:
  assumes "\<forall>us. user_limits cfg = LimitsList us \<longrightarrow> find (user_match (sender_id ev)) us = None"
    and "\<not> truthy (group_id ev) \<or>
         (\<forall>gs. group_limits cfg = LimitsList gs \<longrightarrow> find (group_match (group_id ev)) gs = None)"
  shows "resolve_limit cfg ev = None"
  using assms
  by (cases "user_limits cfg"; cases "group_limits cfg") (auto simp: resolve_limit_def)

lemma apply_limit_group_limits:
  "apply_limit (cfg\<lparr>group_limits := g\<rparr>) ev t recs limit ltype = apply_limit cfg ev t recs limit ltype"
  by (simp add: apply_limit_def)

lemma apply_limit_reads_key:
  "recs2 (record_key ev) = recs (record_key ev) \<Longrightarrow>
     map_sum id fst (apply_limit cfg ev t recs2 limit ltype)
       = map_sum id fst (apply_limit cfg ev t recs limit ltype)"
  by (simp add: apply_limit_def Let_def split: option.split sum.split)

lemma apply_limit_writes_key:
  "apply_limit cfg ev t recs limit ltype = Inr (res, recs', effs) \<Longrightarrow>
     (\<forall>k. k \<noteq> record_key ev \<longrightarrow> recs' k = recs k)
     \<and> (fst res \<longrightarrow> (\<exists>c. recs' (record_key ev) = Some \<lparr>timestamp = Some t, count = Some c\<rparr>))"
  by (auto simp: apply_limit_def Let_def usage_record_updated
           split: option.splits if_splits sum.splits)

lemma check_sequence_countdown:
  assumes en: "enabled cfg = Some True"
    and res: "resolve_limit cfg ev = Some (limit, ltype)"
  shows "recs (record_key ev) = Some \<lparr>timestamp = Some t0, count = Some (limit - int k)\<rparr> \<Longrightarrow>
         length ts = Suc k \<Longrightarrow> within_window cfg (t0 # ts) \<Longrightarrow>
         check_sequence cfg ev ts recs =
           map (\<lambda>i. Inr (True, success_message ltype (sender_id ev) (int k - 1 - int i))) [0..<k]
           @ [Inr (False, LimitReached limit)]"
proof (induction k arbitrary: ts recs t0)
  case 0
  then obtain t where ts: "ts = [t]"
    by (cases ts) auto
  from 0 ts have nw: "minutes_exceed
        (t - (case timestamp \<lparr>timestamp = Some t0, count = Some limit\<rparr> of
                None \<Rightarrow> 0 | Some x \<Rightarrow> x))
        (case reset_interval_minutes cfg of None \<Rightarrow> 1440 | Some i \<Rightarrow> i) = Inr False"
    by simp
  from 0 have r: "recs (record_key ev) = Some \<lparr>timestamp = Some t0, count = Some limit\<rparr>"
    by simp
  have "check_and_update_limit cfg ev t recs = Inr ((False, LimitReached limit), recs, [])"
    using check_within_raw [of cfg ev limit ltype recs
        "\<lparr>timestamp = Some t0, count = Some limit\<rparr>" limit t]
      en res r nw by simp
  with ts show ?case by simp
next
  case (Suc k)
  then obtain t ts' where ts: "ts = t # ts'" and len: "length ts' = Suc k"
    by (cases ts) auto
  let ?r = "\<lparr>timestamp = Some t0, count = Some (limit - int (Suc k))\<rparr>"
  let ?recs' = "recs(record_key ev \<mapsto> \<lparr>timestamp = Some t, count = Some (limit - int k)\<rparr>)"
  from Suc.prems(3) ts
  have nw: "minutes_exceed (t - (case timestamp ?r of None \<Rightarrow> 0 | Some x \<Rightarrow> x))
        (case reset_interval_minutes cfg of None \<Rightarrow> 1440 | Some i \<Rightarrow> i) = Inr False"
    and ww: "within_window cfg (t # ts')"
    by simp_all
  have step: "check_and_update_limit cfg ev t recs =
      Inr ((True, success_message ltype (sender_id ev) (int k)), ?recs', [SaveUsageRecords ?recs'])"
    using check_within_raw [of cfg ev limit ltype recs ?r "limit - int (Suc k)" t]
      en res Suc.prems(1) nw by simp
  have rest: "check_sequence cfg ev ts' ?recs' =
           map (\<lambda>i. Inr (True, success_message ltype (sender_id ev) (int k - 1 - int i))) [0..<k]
           @ [Inr (False, LimitReached limit)]"
  proof (rule Suc.IH)
    show "?recs' (record_key ev) = Some \<lparr>timestamp = Some t, count = Some (limit - int k)\<rparr>"
      by simp
    show "length ts' = Suc k" by (rule len)
    show "within_window cfg (t # ts')" by (rule ww)
  qed
  have "map (\<lambda>i. Inr (True, success_message ltype (sender_id ev) (int (Suc k) - 1 - int i))
               :: exn + (bool \<times> message)) [0..<Suc k]
        = Inr (True, success_message ltype (sender_id ev) (int k))
          # map (\<lambda>i. Inr (True, success_message ltype (sender_id ev) (int k - 1 - int i))) [0..<k]"
    by (simp only: map_upt_Suc) (simp add: algebra_simps)
  with ts step rest show ?case by simp
qed

lemma check_effects:
  "check_and_update_limit cfg ev t recs = Inr (res, recs', effs) \<Longrightarrow>
     effs = [] \<or> effs = [SaveUsageRecords recs']"
  by (auto simp: check_and_update_limit_def apply_limit_def Let_def
           split: if_splits option.splits prod.splits sum.splits)

lemma yields_append: "yields (a @ b) = yields a @ yields b"
  by (induction a rule: yields.induct) simp_all

lemma check_effects_yields:
  "check_and_update_limit cfg ev t recs = Inr (res, recs', effs) \<Longrightarrow> yields effs = []"
  by (drule check_effects) auto

lemma check_effects_no_send:
  "check_and_update_limit cfg ev t recs = Inr (res, recs', effs) \<Longrightarrow>
     \<not> list_ex is_send_file effs \<and> \<not> list_ex is_convert effs \<and> \<not> list_ex is_generate effs"
  by (drule check_effects) auto

lemma send_image_effects:
  "snd (send_image_with_callback_api env p) = [] \<or>
   snd (send_image_with_callback_api env p) = [ConvertToWebLink p]"
  by (simp add: send_image_with_callback_api_def split: sum.split)

lemma pic_gen_reply_no_send: "\<not> list_ex is_send_file (pic_gen_reply env m p)"
  using send_image_effects [of env p]
  by (auto simp: pic_gen_reply_def Let_def split: prod.split)

lemma figure_reply_no_send: "\<not> list_ex is_send_file (figure_reply env m p)"
  using send_image_effects [of env p]
  by (auto simp: figure_reply_def Let_def split: prod.split)

lemma pic_gen_reply_no_save: "\<not> list_ex is_save (pic_gen_reply env m p)"
  using send_image_effects [of env p]
  by (auto simp: pic_gen_reply_def Let_def split: prod.split)

lemma pic_gen_reply_no_generate: "\<not> list_ex is_generate (pic_gen_reply env m p)"
  using send_image_effects [of env p]
  by (auto simp: pic_gen_reply_def Let_def split: prod.split)

lemma figure_reply_no_save: "\<not> list_ex is_save (figure_reply env m p)"
  using send_image_effects [of env p]
  by (auto simp: figure_reply_def Let_def split: prod.split)

lemma pic_gen_permitted:
  assumes "check_and_update_limit (rate_limit_config self) ev (now env) (usage_records self)
             = Inr ((True, message), recs, effs)"
  shows "pic_gen env self ev d use_refs =
     (self\<lparr>usage_records := recs\<rparr>,
      effs @ [LoadGlobalConfig,
              GenerateImage (Description d) (if use_refs then reference_images ev else [])] @
        (case generate_image_openrouter env (Description d)
                 (if use_refs then reference_images ev else []) of
           Inl e \<Rightarrow> [Yield (PlainResult (GenFailedExc e))]
         | Inr (image_url, image_path) \<Rightarrow>
             if \<not> truthy image_url \<or> \<not> truthy image_path
             then [Yield (PlainResult GenFailed)]
             else if uses_nap_server self then
               (case send_file env (the image_path)
                       (nap_server_address self) (nap_server_port self) of
                  Inl e \<Rightarrow>
                    [SendFile (the image_path) (nap_server_address self) (nap_server_port self),
                     Yield (PlainResult (GenFailedExc e))]
                | Inr remote \<Rightarrow>
                    SendFile (the image_path) (nap_server_address self) (nap_server_port self)
                    # pic_gen_reply env message remote)
             else pic_gen_reply env message (the image_path)))"
  using assms by (simp add: pic_gen_def Let_def)

lemma figure_permitted:
  assumes "check_and_update_limit (rate_limit_config self) ev (now env) (usage_records self)
             = Inr ((True, message), recs, effs)"
  shows "figure_transform env self ev =
     (self\<lparr>usage_records := recs\<rparr>,
      if reference_images ev = []
      then effs @ [LoadGlobalConfig, Yield (PlainResult NeedImage)]
      else
      effs @ [LoadGlobalConfig, GenerateImage FigurePrompt (reference_images ev)] @
        (case generate_image_openrouter env FigurePrompt (reference_images ev) of
           Inl e \<Rightarrow> [Yield (PlainResult (FigureFailedExc e))]
         | Inr (image_url, image_path) \<Rightarrow>
             if \<not> truthy image_url \<or> \<not> truthy image_path
             then [Yield (PlainResult FigureFailed)]
             else if uses_nap_server self then
               (case send_file env (the image_path)
                       (nap_server_address self) (nap_server_port self) of
                  Inl e \<Rightarrow>
                    [SendFile (the image_path) (nap_server_address self) (nap_server_port self),
                     Yield (PlainResult (FigureFailedExc e))]
                | Inr remote \<Rightarrow>
                    SendFile (the image_path) (nap_server_address self) (nap_server_port self)
                    # figure_reply env message remote)
             else figure_reply env message (the image_path)))"
  using assms by (simp add: figure_transform_def Let_def)

subsection \<open>The examples, evaluated\<close>

lemma resolve_user2_private: "resolve_limit cfg_user2 ev_private = Some (2, UserLimit)"
  by (simp add: resolve_limit_def cfg_user2_def ev_private_def limit_of_def)

lemma key_private: "record_key ev_private = ''user_u1''"
  by (simp add: record_key_def ev_private_def)

lemma resolve_zero_private: "resolve_limit cfg_zero ev_private = Some (0, UserLimit)"
  by (simp add: resolve_limit_def cfg_zero_def ev_private_def limit_of_def)

lemma key_group: "record_key ev_group = ''group_g1''"
  by (simp add: record_key_def ev_group_def)

lemma resolve_user2_group: "resolve_limit cfg_user2 ev_group = Some (2, UserLimit)"
  by (simp add: resolve_limit_def cfg_user2_def ev_group_def limit_of_def)

lemma enabled_user2: "enabled cfg_user2 = Some True"
  by (simp add: cfg_user2_def)

lemma sender_group: "sender_id ev_group = ''u1''"
  by (simp add: ev_group_def)

lemma resolve_user2_other: "resolve_limit cfg_user2 ev_other = Some (5, GroupLimit)"
  by (simp add: resolve_limit_def cfg_user2_def ev_other_def limit_of_def)

lemma key_other: "record_key ev_other = ''group_g1''"
  by (simp add: record_key_def ev_other_def)

lemma resolve_user2_picture: "resolve_limit cfg_user2 ev_picture = Some (2, UserLimit)"
  by (simp add: resolve_limit_def cfg_user2_def ev_picture_def limit_of_def)

lemma key_picture: "record_key ev_picture = ''user_u1''"
  by (simp add: record_key_def ev_picture_def)

lemma images_picture: "reference_images ev_picture = [''aGk='', ''eW8='']"
  by (simp add: reference_images_def ev_picture_def)

lemma sender_picture: "sender_id ev_picture = ''u1''"
  by (simp add: ev_picture_def)

lemma sender_private: "sender_id ev_private = ''u1''"
  by (simp add: ev_private_def)

lemma check_picture_fresh:
  "check_and_update_limit cfg_user2 ev_picture 1060 Map.empty
     = Inr ((True, UserDrawOk ''u1'' 1),
            [''user_u1'' \<mapsto> \<lparr>timestamp = Some 1060, count = Some 1\<rparr>],
            [SaveUsageRecords [''user_u1'' \<mapsto> \<lparr>timestamp = Some 1060, count = Some 1\<rparr>]])"
  using check_no_record [of cfg_user2 ev_picture 2 UserLimit Map.empty 1060]
  by (simp add: enabled_user2 resolve_user2_picture key_picture sender_picture
        success_message_def)

lemma check_at_limit:
  "check_and_update_limit cfg_user2 ev_private 1060
        [''user_u1'' \<mapsto> \<lparr>timestamp = Some 1000, count = Some 2\<rparr>]
     = Inr ((False, LimitReached 2),
            [''user_u1'' \<mapsto> \<lparr>timestamp = Some 1000, count = Some 2\<rparr>], [])"
  using check_within [of cfg_user2 ev_private 2 UserLimit
      "[''user_u1'' \<mapsto> \<lparr>timestamp = Some 1000, count = Some 2\<rparr>]"
      "\<lparr>timestamp = Some 1000, count = Some 2\<rparr>" 2 1060]
  by (simp add: enabled_user2 resolve_user2_private key_private)
     (simp add: cfg_user2_def)

lemma check_zero_expired:
  "check_and_update_limit cfg_zero ev_private 1061
        [''user_u1'' \<mapsto> \<lparr>timestamp = Some 1000, count = Some 7\<rparr>]
     = Inr ((False, LimitReached 0),
            [''user_u1'' \<mapsto> \<lparr>timestamp = Some 1000, count = Some 7\<rparr>], [])"
  using check_expired [of cfg_zero ev_private 0 UserLimit
      "[''user_u1'' \<mapsto> \<lparr>timestamp = Some 1000, count = Some 7\<rparr>]"
      "\<lparr>timestamp = Some 1000, count = Some 7\<rparr>" 1061]
  by (simp add: resolve_zero_private key_private)
     (simp add: cfg_zero_def)

lemma within_window_example: "within_window cfg_user2 [100, 200, 300]"
  by (simp add: cfg_user2_def minutes_exceed_in_range)

lemma check_plugin_fresh:
  "check_and_update_limit (rate_limit_config plugin_fresh) ev_picture (now env_no_url)
       (usage_records plugin_fresh)
     = Inr ((True, UserDrawOk ''u1'' 1),
            [''user_u1'' \<mapsto> \<lparr>timestamp = Some 1060, count = Some 1\<rparr>],
            [SaveUsageRecords [''user_u1'' \<mapsto> \<lparr>timestamp = Some 1060, count = Some 1\<rparr>]])"
  by (simp add: plugin_fresh_def env_no_url_def check_picture_fresh)

lemma check_plugin_fresh_ok:
  "check_and_update_limit (rate_limit_config plugin_fresh) ev_picture (now env_ok)
       (usage_records plugin_fresh)
     = Inr ((True, UserDrawOk ''u1'' 1),
            [''user_u1'' \<mapsto> \<lparr>timestamp = Some 1060, count = Some 1\<rparr>],
            [SaveUsageRecords [''user_u1'' \<mapsto> \<lparr>timestamp = Some 1060, count = Some 1\<rparr>]])"
  by (simp add: plugin_fresh_def env_ok_def check_picture_fresh)

lemma check_plugin_localhost_ok:
  "check_and_update_limit (rate_limit_config plugin_localhost) ev_picture (now env_ok)
       (usage_records plugin_localhost)
     = Inr ((True, UserDrawOk ''u1'' 1),
            [''user_u1'' \<mapsto> \<lparr>timestamp = Some 1060, count = Some 1\<rparr>],
            [SaveUsageRecords [''user_u1'' \<mapsto> \<lparr>timestamp = Some 1060, count = Some 1\<rparr>]])"
  by (simp add: plugin_localhost_def env_ok_def check_picture_fresh)

lemma check_plugin_nap_ok:
  "check_and_update_limit (rate_limit_config plugin_nap) ev_picture (now env_ok)
       (usage_records plugin_nap)
     = Inr ((True, UserDrawOk ''u1'' 1),
            [''user_u1'' \<mapsto> \<lparr>timestamp = Some 1060, count = Some 1\<rparr>],
            [SaveUsageRecords [''user_u1'' \<mapsto> \<lparr>timestamp = Some 1060, count = Some 1\<rparr>]])"
  by (simp add: plugin_nap_def env_ok_def check_picture_fresh)

lemma check_plugin_fresh_raises:
  "check_and_update_limit (rate_limit_config plugin_fresh) ev_picture (now env_raises)
       (usage_records plugin_fresh)
     = Inr ((True, UserDrawOk ''u1'' 1),
            [''user_u1'' \<mapsto> \<lparr>timestamp = Some 1060, count = Some 1\<rparr>],
            [SaveUsageRecords [''user_u1'' \<mapsto> \<lparr>timestamp = Some 1060, count = Some 1\<rparr>]])"
  by (simp add: plugin_fresh_def env_raises_def check_picture_fresh)

section \<open>Claims\<close>

text \<open>
  C1. Take a check that reaches the record lookup (rate limiting is enabled and a limit
  applies) and finds a record under the key, the clock reading and the record's timestamp
  (0 when the record has none) being less than \<open>2\<^sup>5\<^sup>2\<close> seconds apart: in that range the
  float of line 135 compares with the interval as the exact quotient does. The elapsed
  minutes are the clock reading minus the timestamp, divided by 60; the interval is
  \<^verbatim>\<open>reset_interval_minutes\<close>, 1440 when the configuration has none. If the elapsed minutes
  strictly exceed the interval, the check compares 0 with the limit, whatever the stored
  count is: it is denied when the limit is at most 0, and otherwise permitted, leaving a
  record with count 1. If the elapsed minutes are at most the interval, the check compares
  the stored count \<open>c\<close> with the limit: it is denied when \<open>c\<close> has reached the limit, and
  otherwise permitted, leaving a record with count \<open>c + 1\<close>.
\<close>

theorem window_reset_before_limit:
  assumes "enabled cfg = Some True"
    and "resolve_limit cfg ev = Some (limit, ltype)"
    and "recs (record_key ev) = Some r"
    and "elapsed_minutes =
           (of_int (t - (case timestamp r of None \<Rightarrow> 0 | Some x \<Rightarrow> x)) :: rat) / 60"
    and "interval = (case reset_interval_minutes cfg of None \<Rightarrow> 1440 | Some i \<Rightarrow> i)"
    and "\<bar>t - (case timestamp r of None \<Rightarrow> 0 | Some x \<Rightarrow> x)\<bar> < 2 ^ 52"
  shows "(elapsed_minutes > of_int interval \<longrightarrow>
           check_and_update_limit cfg ev t recs =
             (if 0 \<ge> limit then Inr ((False, LimitReached limit), recs, [])
              else Inr ((True, success_message ltype (sender_id ev) (limit - 1)),
                        recs(record_key ev \<mapsto> \<lparr>timestamp = Some t, count = Some 1\<rparr>),
                        [SaveUsageRecords
                           (recs(record_key ev \<mapsto> \<lparr>timestamp = Some t, count = Some 1\<rparr>))])))
       \<and> (elapsed_minutes \<le> of_int interval \<longrightarrow> count r = Some c \<longrightarrow>
           check_and_update_limit cfg ev t recs =
             (if c \<ge> limit then Inr ((False, LimitReached limit), recs, [])
              else Inr ((True, success_message ltype (sender_id ev) (limit - (c + 1))),
                        recs(record_key ev \<mapsto> \<lparr>timestamp = Some t, count = Some (c + 1)\<rparr>),
                        [SaveUsageRecords
                           (recs(record_key ev \<mapsto>
                              \<lparr>timestamp = Some t, count = Some (c + 1)\<rparr>))])))"
proof (intro conjI impI)
  assume "elapsed_minutes > of_int interval"
  with assms show "check_and_update_limit cfg ev t recs =
             (if 0 \<ge> limit then Inr ((False, LimitReached limit), recs, [])
              else Inr ((True, success_message ltype (sender_id ev) (limit - 1)),
                        recs(record_key ev \<mapsto> \<lparr>timestamp = Some t, count = Some 1\<rparr>),
                        [SaveUsageRecords
                           (recs(record_key ev \<mapsto> \<lparr>timestamp = Some t, count = Some 1\<rparr>))]))"
    by (simp add: check_expired)
next
  assume le: "elapsed_minutes \<le> of_int interval" and c: "count r = Some c"
  from le assms(4,5)
  have ne: "\<not> (of_int (t - (case timestamp r of None \<Rightarrow> 0 | Some x \<Rightarrow> x)) :: rat) / 60
           > of_int (case reset_interval_minutes cfg of None \<Rightarrow> 1440 | Some i \<Rightarrow> i)"
    by simp
  from check_within [of cfg ev limit ltype recs r c t] assms(1,2,3,6) c ne
  show "check_and_update_limit cfg ev t recs =
             (if c \<ge> limit then Inr ((False, LimitReached limit), recs, [])
              else Inr ((True, success_message ltype (sender_id ev) (limit - (c + 1))),
                        recs(record_key ev \<mapsto> \<lparr>timestamp = Some t, count = Some (c + 1)\<rparr>),
                        [SaveUsageRecords
                           (recs(record_key ev \<mapsto>
                              \<lparr>timestamp = Some t, count = Some (c + 1)\<rparr>))]))"
    by simp
qed

theorem window_reset_before_limit_witness:
  "enabled cfg_user2 = Some True
   \<and> resolve_limit cfg_user2 ev_private = Some (2, UserLimit)
   \<and> [''user_u1'' \<mapsto> \<lparr>timestamp = Some 1000, count = Some 2\<rparr>] (record_key ev_private)
        = Some \<lparr>timestamp = Some 1000, count = Some 2\<rparr>
   \<and> \<bar>87401 - 1000\<bar> < (2::int) ^ 52
   \<and> (of_int (87401 - 1000) :: rat) / 60 > of_int 1440
   \<and> check_and_update_limit cfg_user2 ev_private 87401
        [''user_u1'' \<mapsto> \<lparr>timestamp = Some 1000, count = Some 2\<rparr>]
      = Inr ((True, UserDrawOk ''u1'' 1),
             [''user_u1'' \<mapsto> \<lparr>timestamp = Some 87401, count = Some 1\<rparr>],
             [SaveUsageRecords [''user_u1'' \<mapsto> \<lparr>timestamp = Some 87401, count = Some 1\<rparr>]])
   \<and> \<bar>87400 - 1000\<bar> < (2::int) ^ 52
   \<and> (of_int (87400 - 1000) :: rat) / 60 \<le> of_int 1440
   \<and> check_and_update_limit cfg_user2 ev_private 87400
        [''user_u1'' \<mapsto> \<lparr>timestamp = Some 1000, count = Some 2\<rparr>]
      = Inr ((False, LimitReached 2),
             [''user_u1'' \<mapsto> \<lparr>timestamp = Some 1000, count = Some 2\<rparr>], [])"
  using window_reset_before_limit [of cfg_user2 ev_private 2 UserLimit
      "[''user_u1'' \<mapsto> \<lparr>timestamp = Some 1000, count = Some 2\<rparr>]"
      "\<lparr>timestamp = Some 1000, count = Some 2\<rparr>"
      "(of_int (87401 - 1000) :: rat) / 60" 87401 1440 2]
    window_reset_before_limit [of cfg_user2 ev_private 2 UserLimit
      "[''user_u1'' \<mapsto> \<lparr>timestamp = Some 1000, count = Some 2\<rparr>]"
      "\<lparr>timestamp = Some 1000, count = Some 2\<rparr>"
      "(of_int (87400 - 1000) :: rat) / 60" 87400 1440 2]
  by (simp add: resolve_user2_private key_private success_message_def)
     (simp add: cfg_user2_def ev_private_def)

text \<open>
  C2, for checks that share one record and have it to themselves. Rate limiting is enabled,
  the limit resolved for the sender is the per-user limit \<open>N\<close>, there is no record under the
  record key, and \<open>N + 1\<close> checks of the same event (the same sender in the same chat, so the
  same record key) follow one another, with no other check in between and none finding
  the window of the one before expired. Then the first \<open>N\<close> checks are permitted, the
  \<open>i\<close>-th of them (counting from 1) with the message that \<open>N - i\<close> draws remain, \<open>i\<close>
  being the count it stores; and check \<open>N + 1\<close> is denied with the message that cites \<open>N\<close>.
\<close>

theorem limit_allows_exactly_n:
  assumes "enabled cfg = Some True"
    and "resolve_limit cfg ev = Some (int N, UserLimit)"
    and "recs (record_key ev) = None"
    and "length ts = N + 1"
    and "within_window cfg ts"
  shows "check_sequence cfg ev ts recs =
           map (\<lambda>i. Inr (True, UserDrawOk (sender_id ev) (int N - int (i + 1)))) [0..<N]
           @ [Inr (False, LimitReached (int N))]"
proof (cases N)
  case 0
  with assms(4) obtain t where ts: "ts = [t]"
    by (cases ts) auto
  have "check_and_update_limit cfg ev t recs = Inr ((False, LimitReached (int N)), recs, [])"
    using check_no_record [of cfg ev "int N" UserLimit recs t] assms(1,2,3) 0 by simp
  with ts 0 show ?thesis by simp
next
  case (Suc k)
  with assms(4) obtain t ts' where ts: "ts = t # ts'" and len: "length ts' = Suc k"
    by (cases ts) auto
  let ?recs' = "recs(record_key ev \<mapsto> \<lparr>timestamp = Some t, count = Some 1\<rparr>)"
  have step: "check_and_update_limit cfg ev t recs =
      Inr ((True, success_message UserLimit (sender_id ev) (int N - 1)), ?recs',
           [SaveUsageRecords ?recs'])"
    using check_no_record [of cfg ev "int N" UserLimit recs t] assms(1,2,3) Suc by simp
  have r: "?recs' (record_key ev) = Some \<lparr>timestamp = Some t, count = Some (int N - int k)\<rparr>"
    using Suc by simp
  have ww: "within_window cfg (t # ts')"
    using assms(5) ts by simp
  have rest: "check_sequence cfg ev ts' ?recs' =
           map (\<lambda>i. Inr (True, success_message UserLimit (sender_id ev) (int k - 1 - int i))) [0..<k]
           @ [Inr (False, LimitReached (int N))]"
    using assms(1,2) r len ww by (rule check_sequence_countdown)
  have "map (\<lambda>i. Inr (True, UserDrawOk (sender_id ev) (int N - int (i + 1)))
               :: exn + (bool \<times> message)) [0..<Suc k]
        = Inr (True, UserDrawOk (sender_id ev) (int N - 1))
          # map (\<lambda>i. Inr (True, UserDrawOk (sender_id ev) (int k - 1 - int i))) [0..<k]"
    using Suc by (simp only: map_upt_Suc) (simp add: algebra_simps)
  with ts step rest Suc show ?thesis
    by (simp add: success_message_def)
qed

theorem limit_allows_exactly_n_witness:
  "enabled cfg_user2 = Some True
   \<and> resolve_limit cfg_user2 ev_private = Some (int 2, UserLimit)
   \<and> Map.empty (record_key ev_private) = (None :: usage_record option)
   \<and> length [100, 200, 300 :: int] = 2 + 1
   \<and> within_window cfg_user2 [100, 200, 300]
   \<and> check_sequence cfg_user2 ev_private [100, 200, 300] Map.empty
       = [Inr (True, UserDrawOk ''u1'' 1), Inr (True, UserDrawOk ''u1'' 0),
          Inr (False, LimitReached 2)]"
proof -
  have r: "resolve_limit cfg_user2 ev_private = Some (int 2, UserLimit)"
    by (simp add: resolve_user2_private)
  have n: "Map.empty (record_key ev_private) = (None :: usage_record option)" by simp
  have l: "length [100, 200, 300 :: int] = 2 + 1" by simp
  have u: "[0..<2] = [0, Suc 0]" by (simp add: upt_rec)
  from limit_allows_exactly_n [OF enabled_user2 r n l within_window_example]
  have "check_sequence cfg_user2 ev_private [100, 200, 300] Map.empty
       = [Inr (True, UserDrawOk ''u1'' 1), Inr (True, UserDrawOk ''u1'' 0),
          Inr (False, LimitReached 2)]"
    by (simp add: u sender_private)
  with enabled_user2 r n l within_window_example show ?thesis by simp
qed

text \<open>
  C2 does not hold of the sender's checks whatever chat they come from, nor when others use
  the record. The limit of two for \<open>u1\<close> is resolved in the private chat and in group
  \<open>g1\<close> alike, but the private chat counts under \<^verbatim>\<open>user_u1\<close> and the group under
  \<^verbatim>\<open>group_g1\<close>. After two private draws the third check of \<open>u1\<close>, made in the group, is
  permitted. And in the group, once \<open>u1\<close> and then \<open>u2\<close> have drawn, the second check of
  \<open>u1\<close> is denied. Both runs start from no record and stay within the window.
\<close>

theorem limit_allows_exactly_n_counterexample:
  "enabled cfg_user2 = Some True
   \<and> resolve_limit cfg_user2 ev_private = Some (2, UserLimit)
   \<and> resolve_limit cfg_user2 ev_group = Some (2, UserLimit)
   \<and> sender_id ev_private = sender_id ev_group
   \<and> within_window cfg_user2 [100, 200, 300]
   \<and> check_run cfg_user2 [(ev_private, 100), (ev_private, 200), (ev_group, 300)]
         (usage_records plugin_fresh)
       = [Inr (True, UserDrawOk ''u1'' 1), Inr (True, UserDrawOk ''u1'' 0),
          Inr (True, UserDrawOk ''u1'' 1)]
   \<and> check_run cfg_user2 [(ev_group, 100), (ev_other, 200), (ev_group, 300)]
         (usage_records plugin_fresh)
       = [Inr (True, UserDrawOk ''u1'' 1), Inr (True, DrawOk 3),
          Inr (False, LimitReached 2)]"
proof -
  let ?p1 = "[''user_u1'' \<mapsto> \<lparr>timestamp = Some 100, count = Some (1::int)\<rparr>]"
  let ?p2 = "[''user_u1'' \<mapsto> \<lparr>timestamp = Some 200, count = Some (2::int)\<rparr>]"
  let ?g1 = "[''group_g1'' \<mapsto> \<lparr>timestamp = Some 100, count = Some (1::int)\<rparr>]"
  let ?g2 = "[''group_g1'' \<mapsto> \<lparr>timestamp = Some 200, count = Some (2::int)\<rparr>]"
  have e: "usage_records plugin_fresh = Map.empty"
    by (simp add: plugin_fresh_def)
  have iv: "(case reset_interval_minutes cfg_user2 of None \<Rightarrow> 1440 | Some i \<Rightarrow> i) = 1440"
    by (simp add: cfg_user2_def)
  have a1: "check_and_update_limit cfg_user2 ev_private 100 Map.empty
      = Inr ((True, UserDrawOk ''u1'' 1), ?p1, [SaveUsageRecords ?p1])"
    using check_no_record [of cfg_user2 ev_private 2 UserLimit Map.empty 100]
    by (simp add: enabled_user2 resolve_user2_private key_private sender_private
          success_message_def)
  have a2: "check_and_update_limit cfg_user2 ev_private 200 ?p1
      = Inr ((True, UserDrawOk ''u1'' 0), ?p2, [SaveUsageRecords ?p2])"
    using check_within [of cfg_user2 ev_private 2 UserLimit ?p1
        "\<lparr>timestamp = Some 100, count = Some 1\<rparr>" 1 200]
    by (simp add: enabled_user2 resolve_user2_private key_private sender_private
          success_message_def iv)
  have a3: "check_and_update_limit cfg_user2 ev_group 300 ?p2
      = Inr ((True, UserDrawOk ''u1'' 1),
             ?p2(''group_g1'' \<mapsto> \<lparr>timestamp = Some 300, count = Some 1\<rparr>),
             [SaveUsageRecords
                (?p2(''group_g1'' \<mapsto> \<lparr>timestamp = Some 300, count = Some 1\<rparr>))])"
    using check_no_record [of cfg_user2 ev_group 2 UserLimit ?p2 300]
    by (simp add: enabled_user2 resolve_user2_group key_group sender_group
          success_message_def)
  have b1: "check_and_update_limit cfg_user2 ev_group 100 Map.empty
      = Inr ((True, UserDrawOk ''u1'' 1), ?g1, [SaveUsageRecords ?g1])"
    using check_no_record [of cfg_user2 ev_group 2 UserLimit Map.empty 100]
    by (simp add: enabled_user2 resolve_user2_group key_group sender_group
          success_message_def)
  have b2: "check_and_update_limit cfg_user2 ev_other 200 ?g1
      = Inr ((True, DrawOk 3), ?g2, [SaveUsageRecords ?g2])"
    using check_within [of cfg_user2 ev_other 5 GroupLimit ?g1
        "\<lparr>timestamp = Some 100, count = Some 1\<rparr>" 1 200]
    by (simp add: enabled_user2 resolve_user2_other key_other success_message_def iv)
  have b3: "check_and_update_limit cfg_user2 ev_group 300 ?g2
      = Inr ((False, LimitReached 2), ?g2, [])"
    using check_within [of cfg_user2 ev_group 2 UserLimit ?g2
        "\<lparr>timestamp = Some 200, count = Some 2\<rparr>" 2 300]
    by (simp add: enabled_user2 resolve_user2_group key_group iv)
  have runs: "check_run cfg_user2 [(ev_private, 100), (ev_private, 200), (ev_group, 300)]
         (usage_records plugin_fresh)
       = [Inr (True, UserDrawOk ''u1'' 1), Inr (True, UserDrawOk ''u1'' 0),
          Inr (True, UserDrawOk ''u1'' 1)]
     \<and> check_run cfg_user2 [(ev_group, 100), (ev_other, 200), (ev_group, 300)]
         (usage_records plugin_fresh)
       = [Inr (True, UserDrawOk ''u1'' 1), Inr (True, DrawOk 3),
          Inr (False, LimitReached 2)]"
    by (simp add: e a1 a2 a3 b1 b2 b3)
  have same: "sender_id ev_private = sender_id ev_group"
    by (simp add: sender_private sender_group)
  from runs same enabled_user2 resolve_user2_private resolve_user2_group
    within_window_example
  show ?thesis by blast
qed

text \<open>
  C3. If \<^verbatim>\<open>user_limits\<close> is a list whose first entry matching the sender is \<open>d\<close>, the
  limit is that of \<open>d\<close> (its \<^verbatim>\<open>limit\<close>, or \<^verbatim>\<open>default_limit\<close>, or 10), of the user kind: an
  enabled check is the check against that limit, and no \<^verbatim>\<open>group_limits\<close> value changes
  the check. If no user entry matches and the event has a group id that a
  \<^verbatim>\<open>group_limits\<close> entry \<open>d'\<close> matches, the limit is that of \<open>d'\<close>, of the group kind. If
  neither matches, no limit applies and the check returns \<^verbatim>\<open>(True, "")\<close>, whatever the
  mapping is, returns the mapping as it was and makes no call.
\<close>

theorem user_limit_over_group_limit:
  "(user_limits cfg = LimitsList us \<longrightarrow>
      find (user_match (sender_id ev)) us = Some (Dict d) \<longrightarrow>
        resolve_limit cfg ev = Some (limit_of cfg d, UserLimit)
        \<and> (\<forall>t recs. enabled cfg = Some True \<longrightarrow>
               check_and_update_limit cfg ev t recs
                 = apply_limit cfg ev t recs (limit_of cfg d) UserLimit)
        \<and> (\<forall>g t recs. check_and_update_limit (cfg\<lparr>group_limits := g\<rparr>) ev t recs
                        = check_and_update_limit cfg ev t recs))
   \<and> ((\<forall>us. user_limits cfg = LimitsList us \<longrightarrow>
             find (user_match (sender_id ev)) us = None) \<longrightarrow>
       truthy (group_id ev) \<longrightarrow>
       group_limits cfg = LimitsList gs \<longrightarrow>
       find (group_match (group_id ev)) gs = Some (Dict d') \<longrightarrow>
         resolve_limit cfg ev = Some (limit_of cfg d', GroupLimit)
         \<and> (\<forall>t recs. enabled cfg = Some True \<longrightarrow>
               check_and_update_limit cfg ev t recs
                 = apply_limit cfg ev t recs (limit_of cfg d') GroupLimit))
   \<and> ((\<forall>us. user_limits cfg = LimitsList us \<longrightarrow>
             find (user_match (sender_id ev)) us = None) \<longrightarrow>
       (\<not> truthy (group_id ev) \<or>
        (\<forall>gs. group_limits cfg = LimitsList gs \<longrightarrow>
              find (group_match (group_id ev)) gs = None)) \<longrightarrow>
         resolve_limit cfg ev = None
         \<and> (\<forall>t recs. check_and_update_limit cfg ev t recs = Inr ((True, NoMessage), recs, [])))"
proof (intro conjI impI)
  assume u: "user_limits cfg = LimitsList us"
    and f: "find (user_match (sender_id ev)) us = Some (Dict d)"
  show r: "resolve_limit cfg ev = Some (limit_of cfg d, UserLimit)"
    using u f by (rule resolve_user_entry)
  show "\<forall>t recs. enabled cfg = Some True \<longrightarrow>
               check_and_update_limit cfg ev t recs
                 = apply_limit cfg ev t recs (limit_of cfg d) UserLimit"
    using r by (simp add: check_limited)
  show "\<forall>g t recs. check_and_update_limit (cfg\<lparr>group_limits := g\<rparr>) ev t recs
                        = check_and_update_limit cfg ev t recs"
  proof (intro allI)
    fix g t recs
    have "resolve_limit (cfg\<lparr>group_limits := g\<rparr>) ev = resolve_limit cfg ev"
      using u f by (simp add: resolve_limit_def limit_of_def split: option.split)
    then show "check_and_update_limit (cfg\<lparr>group_limits := g\<rparr>) ev t recs
                        = check_and_update_limit cfg ev t recs"
      by (cases "resolve_limit cfg ev")
         (auto simp add: check_and_update_limit_def apply_limit_group_limits)
  qed
next
  assume "\<forall>us. user_limits cfg = LimitsList us \<longrightarrow> find (user_match (sender_id ev)) us = None"
    "truthy (group_id ev)" "group_limits cfg = LimitsList gs"
    "find (group_match (group_id ev)) gs = Some (Dict d')"
  then show r: "resolve_limit cfg ev = Some (limit_of cfg d', GroupLimit)"
    by (rule resolve_group_entry)
  show "\<forall>t recs. enabled cfg = Some True \<longrightarrow>
               check_and_update_limit cfg ev t recs
                 = apply_limit cfg ev t recs (limit_of cfg d') GroupLimit"
    using r by (simp add: check_limited)
next
  assume a: "\<forall>us. user_limits cfg = LimitsList us \<longrightarrow> find (user_match (sender_id ev)) us = None"
    and b: "\<not> truthy (group_id ev) \<or>
        (\<forall>gs. group_limits cfg = LimitsList gs \<longrightarrow>
              find (group_match (group_id ev)) gs = None)"
  show n: "resolve_limit cfg ev = None"
    using a b by (rule resolve_no_entry)
  show "\<forall>t recs. check_and_update_limit cfg ev t recs = Inr ((True, NoMessage), recs, [])"
    using n by (simp add: check_unlimited)
qed

theorem user_limit_over_group_limit_witness:
  "find (user_match (sender_id ev_group))
      [Dict \<lparr>d_user_id = Some ''u1'', d_group_id = None, d_limit = Some 2\<rparr>]
     = Some (Dict \<lparr>d_user_id = Some ''u1'', d_group_id = None, d_limit = Some 2\<rparr>)
   \<and> find (group_match (group_id ev_group))
      [NotDict, Dict \<lparr>d_user_id = None, d_group_id = Some ''g1'', d_limit = Some 5\<rparr>]
     = Some (Dict \<lparr>d_user_id = None, d_group_id = Some ''g1'', d_limit = Some 5\<rparr>)
   \<and> resolve_limit cfg_user2 ev_group = Some (2, UserLimit)
   \<and> check_and_update_limit cfg_user2 ev_group 7 Map.empty
       = apply_limit cfg_user2 ev_group 7 Map.empty 2 UserLimit
   \<and> check_and_update_limit (cfg_user2\<lparr>group_limits := LimitsAbsent\<rparr>) ev_group 7 Map.empty
       = check_and_update_limit cfg_user2 ev_group 7 Map.empty
   \<and> find (user_match (sender_id ev_other))
      [Dict \<lparr>d_user_id = Some ''u1'', d_group_id = None, d_limit = Some 2\<rparr>] = None
   \<and> resolve_limit cfg_user2 ev_other = Some (5, GroupLimit)
   \<and> check_and_update_limit cfg_user2 ev_other 7 Map.empty
       = apply_limit cfg_user2 ev_other 7 Map.empty 5 GroupLimit
   \<and> \<not> truthy (group_id ev_stranger)
   \<and> resolve_limit cfg_user2 ev_stranger = None
   \<and> check_and_update_limit cfg_user2 ev_stranger 7 Map.empty
       = Inr ((True, NoMessage), Map.empty, [])"
proof -
  let ?du = "\<lparr>d_user_id = Some ''u1'', d_group_id = None, d_limit = Some 2\<rparr>"
  let ?dg = "\<lparr>d_user_id = None, d_group_id = Some ''g1'', d_limit = Some 5\<rparr>"
  have u: "user_limits cfg_user2 = LimitsList [Dict ?du]"
    and g: "group_limits cfg_user2 = LimitsList [NotDict, Dict ?dg]"
    and e: "enabled cfg_user2 = Some True"
    by (simp_all add: cfg_user2_def)
  have lu: "limit_of cfg_user2 ?du = 2" and lg: "limit_of cfg_user2 ?dg = 5"
    by (simp_all add: limit_of_def)
  have f1: "find (user_match (sender_id ev_group)) [Dict ?du] = Some (Dict ?du)"
    and f2: "find (group_match (group_id ev_group)) [NotDict, Dict ?dg] = Some (Dict ?dg)"
    by (simp_all add: ev_group_def)
  have f3: "find (user_match (sender_id ev_other)) [Dict ?du] = None"
    and f4: "find (group_match (group_id ev_other)) [NotDict, Dict ?dg] = Some (Dict ?dg)"
    and t4: "truthy (group_id ev_other)"
    by (simp_all add: ev_other_def)
  have f5: "find (user_match (sender_id ev_stranger)) [Dict ?du] = None"
    and t5: "\<not> truthy (group_id ev_stranger)"
    by (simp_all add: ev_stranger_def)
  have no3: "\<forall>us. user_limits cfg_user2 = LimitsList us \<longrightarrow>
               find (user_match (sender_id ev_other)) us = None"
    using u f3 by simp
  have no5: "\<forall>us. user_limits cfg_user2 = LimitsList us \<longrightarrow>
               find (user_match (sender_id ev_stranger)) us = None"
    using u f5 by simp
  have A: "resolve_limit cfg_user2 ev_group = Some (2, UserLimit)
      \<and> check_and_update_limit cfg_user2 ev_group 7 Map.empty
           = apply_limit cfg_user2 ev_group 7 Map.empty 2 UserLimit
      \<and> check_and_update_limit (cfg_user2\<lparr>group_limits := LimitsAbsent\<rparr>) ev_group 7 Map.empty
           = check_and_update_limit cfg_user2 ev_group 7 Map.empty"
    using user_limit_over_group_limit [of cfg_user2 "[Dict ?du]" ev_group ?du "[]" ?dg,
        THEN conjunct1] u f1 e lu
    by simp
  have B: "resolve_limit cfg_user2 ev_other = Some (5, GroupLimit)
      \<and> check_and_update_limit cfg_user2 ev_other 7 Map.empty
           = apply_limit cfg_user2 ev_other 7 Map.empty 5 GroupLimit"
    using user_limit_over_group_limit [of cfg_user2 "[]" ev_other ?du
        "[NotDict, Dict ?dg]" ?dg, THEN conjunct2, THEN conjunct1] no3 t4 g f4 e lg
    by simp
  have C: "resolve_limit cfg_user2 ev_stranger = None
      \<and> check_and_update_limit cfg_user2 ev_stranger 7 Map.empty
           = Inr ((True, NoMessage), Map.empty, [])"
    using user_limit_over_group_limit [of cfg_user2 "[]" ev_stranger ?du "[]" ?dg,
        THEN conjunct2, THEN conjunct2] no5 t5
    by simp
  from A B C f1 f2 f3 t5 show ?thesis by simp
qed

text \<open>
  C4. For a check that reaches the record lookup, let the key be \<^verbatim>\<open>group_<id>\<close> when
  the event has a group id and \<^verbatim>\<open>user_<id>\<close> otherwise, whichever kind of limit was
  resolved. The returned pair depends on the mapping only through the record under that key;
  every other key keeps its record; and a permitted check leaves a record under that key.
  The example is a per-user limit applied inside a group: the group's record is the one
  written.
\<close>

theorem record_key_group_first:
  assumes "enabled cfg = Some True"
    and "resolve_limit cfg ev = Some (limit, ltype)"
    and "key = (if truthy (group_id ev) then ''group_'' @ the (group_id ev)
                else ''user_'' @ sender_id ev)"
  shows "(\<forall>recs2. recs2 key = recs key \<longrightarrow>
            map_sum id fst (check_and_update_limit cfg ev t recs2)
              = map_sum id fst (check_and_update_limit cfg ev t recs))
       \<and> (\<forall>res recs' effs.
            check_and_update_limit cfg ev t recs = Inr (res, recs', effs) \<longrightarrow>
              (\<forall>k. k \<noteq> key \<longrightarrow> recs' k = recs k)
              \<and> (fst res \<longrightarrow>
                   (\<exists>c. recs' key = Some \<lparr>timestamp = Some t, count = Some c\<rparr>)))"
proof -
  have k: "key = record_key ev"
    using assms(3) by (simp add: record_key_def)
  have c: "\<And>m. check_and_update_limit cfg ev t m = apply_limit cfg ev t m limit ltype"
    using assms(1,2) by (simp add: check_limited)
  show ?thesis
    unfolding c k using apply_limit_reads_key apply_limit_writes_key by blast
qed

theorem record_key_group_first_witness:
  "enabled cfg_user2 = Some True
   \<and> resolve_limit cfg_user2 ev_group = Some (2, UserLimit)
   \<and> ''group_g1'' = (if truthy (group_id ev_group) then ''group_'' @ the (group_id ev_group)
                       else ''user_'' @ sender_id ev_group)
   \<and> check_and_update_limit cfg_user2 ev_group 7
        [''user_u1'' \<mapsto> \<lparr>timestamp = Some 5, count = Some 2\<rparr>]
      = Inr ((True, UserDrawOk ''u1'' 1),
             [''user_u1'' \<mapsto> \<lparr>timestamp = Some 5, count = Some 2\<rparr>,
              ''group_g1'' \<mapsto> \<lparr>timestamp = Some 7, count = Some 1\<rparr>],
             [SaveUsageRecords
                [''user_u1'' \<mapsto> \<lparr>timestamp = Some 5, count = Some 2\<rparr>,
                 ''group_g1'' \<mapsto> \<lparr>timestamp = Some 7, count = Some 1\<rparr>]])
   \<and> map_sum id fst (check_and_update_limit cfg_user2 ev_group 7 Map.empty)
      = map_sum id fst (check_and_update_limit cfg_user2 ev_group 7
          [''user_u1'' \<mapsto> \<lparr>timestamp = Some 5, count = Some 2\<rparr>])"
proof -
  let ?recs = "[''user_u1'' \<mapsto> \<lparr>timestamp = Some 5, count = Some (2::int)\<rparr>]"
  have k: "''group_g1'' = (if truthy (group_id ev_group) then ''group_'' @ the (group_id ev_group)
                       else ''user_'' @ sender_id ev_group)"
    by (simp add: ev_group_def)
  note T = record_key_group_first [OF enabled_user2 resolve_user2_group k, of ?recs 7]
  have run: "check_and_update_limit cfg_user2 ev_group 7 ?recs
      = Inr ((True, UserDrawOk ''u1'' 1),
             ?recs(''group_g1'' \<mapsto> \<lparr>timestamp = Some 7, count = Some 1\<rparr>),
             [SaveUsageRecords (?recs(''group_g1'' \<mapsto> \<lparr>timestamp = Some 7, count = Some 1\<rparr>))])"
    using check_no_record [of cfg_user2 ev_group 2 UserLimit ?recs 7]
    by (simp add: enabled_user2 resolve_user2_group key_group sender_group
          success_message_def)
  have same: "Map.empty ''group_g1'' = ?recs ''group_g1''" by simp
  from T run same k enabled_user2 resolve_user2_group show ?thesis
    by (metis (no_types, lifting))
qed

text \<open>
  C5. The reset command leaves the empty mapping in memory, calls
  \<^verbatim>\<open>_save_usage_records\<close> on it and yields its message; the configuration is untouched.
  After it every check whose limit, if one applies, is at least 1 is permitted; where a
  limit applies, the check starts from count 0: it stores count 1 under the record key and
  reports \<open>limit - 1\<close> draws remaining.
\<close>

theorem reset_clears_all_records:
  "usage_records (fst (reset_images_command self)) = Map.empty
   \<and> rate_limit_config (fst (reset_images_command self)) = rate_limit_config self
   \<and> snd (reset_images_command self)
       = [SaveUsageRecords Map.empty, Yield (PlainResult ResetDone)]
   \<and> (\<forall>ev t.
        (\<forall>limit ltype. resolve_limit (rate_limit_config self) ev = Some (limit, ltype)
             \<longrightarrow> 1 \<le> limit) \<longrightarrow>
        (\<exists>m recs' effs.
           check_and_update_limit (rate_limit_config self) ev t
              (usage_records (fst (reset_images_command self)))
             = Inr ((True, m), recs', effs)))
   \<and> (\<forall>ev t limit ltype.
        enabled (rate_limit_config self) = Some True \<longrightarrow>
        resolve_limit (rate_limit_config self) ev = Some (limit, ltype) \<longrightarrow>
        1 \<le> limit \<longrightarrow>
          check_and_update_limit (rate_limit_config self) ev t
              (usage_records (fst (reset_images_command self)))
            = Inr ((True, success_message ltype (sender_id ev) (limit - 1)),
                   [record_key ev \<mapsto> \<lparr>timestamp = Some t, count = Some 1\<rparr>],
                   [SaveUsageRecords
                      [record_key ev \<mapsto> \<lparr>timestamp = Some t, count = Some 1\<rparr>]]))"
proof -
  have r: "usage_records (fst (reset_images_command self)) = Map.empty"
    by (simp add: reset_images_command_def Let_def)
  have fresh: "check_and_update_limit cfg ev t Map.empty
            = Inr ((True, success_message ltype (sender_id ev) (limit - 1)),
                   [record_key ev \<mapsto> \<lparr>timestamp = Some t, count = Some 1\<rparr>],
                   [SaveUsageRecords
                      [record_key ev \<mapsto> \<lparr>timestamp = Some t, count = Some 1\<rparr>]])"
    if "enabled cfg = Some True" "resolve_limit cfg ev = Some (limit, ltype)" "1 \<le> limit"
    for cfg ev t limit ltype
    using that check_no_record [of cfg ev limit ltype Map.empty t] by simp
  have any: "\<exists>m recs' effs. check_and_update_limit cfg ev t Map.empty = Inr ((True, m), recs', effs)"
    if "\<forall>limit ltype. resolve_limit cfg ev = Some (limit, ltype) \<longrightarrow> 1 \<le> limit"
    for cfg ev t
  proof (cases "enabled cfg = Some True")
    case False
    then have "\<not> (case enabled cfg of None \<Rightarrow> False | Some b \<Rightarrow> b)"
      by (cases "enabled cfg") auto
    then show ?thesis by (simp add: check_disabled)
  next
    case True
    show ?thesis
    proof (cases "resolve_limit cfg ev")
      case None
      then show ?thesis by (simp add: check_unlimited)
    next
      case (Some p)
      obtain limit ltype where p: "p = (limit, ltype)" by (cases p)
      with Some that have "1 \<le> limit" by simp
      from fresh [OF True Some [unfolded p] this] show ?thesis by blast
    qed
  qed
  show ?thesis
    unfolding r using fresh any
    by (simp add: reset_images_command_def Let_def)
qed

theorem reset_clears_all_records_witness:
  "check_and_update_limit (rate_limit_config plugin_at_limit) ev_private 1060
       (usage_records plugin_at_limit)
     = Inr ((False, LimitReached 2), usage_records plugin_at_limit, [])
   \<and> usage_records (fst (reset_images_command plugin_at_limit)) = Map.empty
   \<and> snd (reset_images_command plugin_at_limit)
       = [SaveUsageRecords Map.empty, Yield (PlainResult ResetDone)]
   \<and> check_and_update_limit (rate_limit_config plugin_at_limit) ev_private 1060
       (usage_records (fst (reset_images_command plugin_at_limit)))
     = Inr ((True, UserDrawOk ''u1'' 1),
            [''user_u1'' \<mapsto> \<lparr>timestamp = Some 1060, count = Some 1\<rparr>],
            [SaveUsageRecords [''user_u1'' \<mapsto> \<lparr>timestamp = Some 1060, count = Some 1\<rparr>]])"
proof -
  have c: "rate_limit_config plugin_at_limit = cfg_user2"
    and u: "usage_records plugin_at_limit
              = [''user_u1'' \<mapsto> \<lparr>timestamp = Some 1000, count = Some 2\<rparr>]"
    by (simp_all add: plugin_at_limit_def)
  have before: "check_and_update_limit cfg_user2 ev_private 1060
        [''user_u1'' \<mapsto> \<lparr>timestamp = Some 1000, count = Some 2\<rparr>]
        = Inr ((False, LimitReached 2),
               [''user_u1'' \<mapsto> \<lparr>timestamp = Some 1000, count = Some 2\<rparr>], [])"
    by (rule check_at_limit)
  note T = reset_clears_all_records [of plugin_at_limit]
  from T have e: "usage_records (fst (reset_images_command plugin_at_limit)) = Map.empty"
    and s: "snd (reset_images_command plugin_at_limit)
       = [SaveUsageRecords Map.empty, Yield (PlainResult ResetDone)]"
    by simp_all
  from T have "enabled (rate_limit_config plugin_at_limit) = Some True \<longrightarrow>
        resolve_limit (rate_limit_config plugin_at_limit) ev_private = Some (2, UserLimit) \<longrightarrow>
        (1::int) \<le> 2 \<longrightarrow>
          check_and_update_limit (rate_limit_config plugin_at_limit) ev_private 1060
              (usage_records (fst (reset_images_command plugin_at_limit)))
            = Inr ((True, success_message UserLimit (sender_id ev_private) (2 - 1)),
                   [record_key ev_private \<mapsto> \<lparr>timestamp = Some 1060, count = Some 1\<rparr>],
                   [SaveUsageRecords
                      [record_key ev_private \<mapsto> \<lparr>timestamp = Some 1060, count = Some 1\<rparr>]])"
    by blast
  then have after: "check_and_update_limit (rate_limit_config plugin_at_limit) ev_private 1060
       (usage_records (fst (reset_images_command plugin_at_limit)))
     = Inr ((True, UserDrawOk ''u1'' 1),
            [''user_u1'' \<mapsto> \<lparr>timestamp = Some 1060, count = Some 1\<rparr>],
            [SaveUsageRecords [''user_u1'' \<mapsto> \<lparr>timestamp = Some 1060, count = Some 1\<rparr>]])"
    by (simp add: c enabled_user2 resolve_user2_private key_private sender_private
          success_message_def)
  from before e s after show ?thesis by (simp add: c u)
qed

text \<open>
  C6. In \<^verbatim>\<open>pic_gen\<close> and in \<^verbatim>\<open>figure_transform\<close> (which reaches the generation call
  only with at least one reference image), when the check permits the draw and the
  generation client returns a pair whose URL or whose path is falsy, the handler's trace is
  the check's own calls, the loading of the global configuration, the generation call and
  one yield of the plain failure text: nothing else is yielded, and there is neither a
  file-transfer call nor a web-link conversion.
\<close>

theorem failed_generation_no_delivery:
  assumes chk: "check_and_update_limit (rate_limit_config self) ev (now env) (usage_records self)
             = Inr ((True, message), recs, effs)"
    and bad: "\<not> truthy image_url \<or> \<not> truthy image_path"
  shows "(generate_image_openrouter env (Description d)
             (if use_refs then reference_images ev else []) = Inr (image_url, image_path) \<longrightarrow>
            snd (pic_gen env self ev d use_refs)
              = effs @ [LoadGlobalConfig,
                        GenerateImage (Description d)
                          (if use_refs then reference_images ev else []),
                        Yield (PlainResult GenFailed)]
            \<and> yields (snd (pic_gen env self ev d use_refs)) = [PlainResult GenFailed]
            \<and> \<not> list_ex is_send_file (snd (pic_gen env self ev d use_refs))
            \<and> \<not> list_ex is_convert (snd (pic_gen env self ev d use_refs)))
       \<and> (reference_images ev \<noteq> [] \<longrightarrow>
          generate_image_openrouter env FigurePrompt (reference_images ev)
             = Inr (image_url, image_path) \<longrightarrow>
            snd (figure_transform env self ev)
              = effs @ [LoadGlobalConfig, GenerateImage FigurePrompt (reference_images ev),
                        Yield (PlainResult FigureFailed)]
            \<and> yields (snd (figure_transform env self ev)) = [PlainResult FigureFailed]
            \<and> \<not> list_ex is_send_file (snd (figure_transform env self ev))
            \<and> \<not> list_ex is_convert (snd (figure_transform env self ev)))"
proof (intro conjI impI)
  assume g: "generate_image_openrouter env (Description d)
             (if use_refs then reference_images ev else []) = Inr (image_url, image_path)"
  show e: "snd (pic_gen env self ev d use_refs)
              = effs @ [LoadGlobalConfig,
                        GenerateImage (Description d)
                          (if use_refs then reference_images ev else []),
                        Yield (PlainResult GenFailed)]"
    using bad g by (simp add: pic_gen_permitted [OF chk])
  show "yields (snd (pic_gen env self ev d use_refs)) = [PlainResult GenFailed]"
    unfolding e using check_effects_yields [OF chk] by (simp add: yields_append)
  show "\<not> list_ex is_send_file (snd (pic_gen env self ev d use_refs))"
    unfolding e using check_effects_no_send [OF chk] by simp
  show "\<not> list_ex is_convert (snd (pic_gen env self ev d use_refs))"
    unfolding e using check_effects_no_send [OF chk] by simp
next
  assume ne: "reference_images ev \<noteq> []"
    and g: "generate_image_openrouter env FigurePrompt (reference_images ev)
             = Inr (image_url, image_path)"
  show e: "snd (figure_transform env self ev)
              = effs @ [LoadGlobalConfig, GenerateImage FigurePrompt (reference_images ev),
                        Yield (PlainResult FigureFailed)]"
    using bad g ne by (simp add: figure_permitted [OF chk])
  show "yields (snd (figure_transform env self ev)) = [PlainResult FigureFailed]"
    unfolding e using check_effects_yields [OF chk] by (simp add: yields_append)
  show "\<not> list_ex is_send_file (snd (figure_transform env self ev))"
    unfolding e using check_effects_no_send [OF chk] by simp
  show "\<not> list_ex is_convert (snd (figure_transform env self ev))"
    unfolding e using check_effects_no_send [OF chk] by simp
qed

theorem failed_generation_no_delivery_witness:
  "\<not> truthy None
   \<and> snd (pic_gen env_no_url plugin_fresh ev_picture ''cat'' True)
        = [SaveUsageRecords [''user_u1'' \<mapsto> \<lparr>timestamp = Some 1060, count = Some 1\<rparr>],
           LoadGlobalConfig,
           GenerateImage (Description ''cat'') [''aGk='', ''eW8=''],
           Yield (PlainResult GenFailed)]
   \<and> yields (snd (pic_gen env_no_url plugin_fresh ev_picture ''cat'' True))
        = [PlainResult GenFailed]
   \<and> \<not> list_ex is_send_file (snd (pic_gen env_no_url plugin_fresh ev_picture ''cat'' True))
   \<and> \<not> list_ex is_convert (snd (pic_gen env_no_url plugin_fresh ev_picture ''cat'' True))
   \<and> snd (figure_transform env_no_url plugin_fresh ev_picture)
        = [SaveUsageRecords [''user_u1'' \<mapsto> \<lparr>timestamp = Some 1060, count = Some 1\<rparr>],
           LoadGlobalConfig,
           GenerateImage FigurePrompt [''aGk='', ''eW8=''],
           Yield (PlainResult FigureFailed)]
   \<and> yields (snd (figure_transform env_no_url plugin_fresh ev_picture))
        = [PlainResult FigureFailed]
   \<and> \<not> list_ex is_send_file (snd (figure_transform env_no_url plugin_fresh ev_picture))
   \<and> \<not> list_ex is_convert (snd (figure_transform env_no_url plugin_fresh ev_picture))"
proof -
  have bad: "\<not> truthy None \<or> \<not> truthy (Some ''/tmp/a.png'')" by simp
  have g1: "generate_image_openrouter env_no_url (Description ''cat'')
              (if True then reference_images ev_picture else []) = Inr (None, Some ''/tmp/a.png'')"
    and g2: "generate_image_openrouter env_no_url FigurePrompt (reference_images ev_picture)
              = Inr (None, Some ''/tmp/a.png'')"
    by (simp_all add: env_no_url_def)
  have ne: "reference_images ev_picture \<noteq> []"
    by (simp add: images_picture)
  from failed_generation_no_delivery [OF check_plugin_fresh bad, of "''cat''" True] g1 g2 ne
  show ?thesis by (simp add: images_picture)
qed

text \<open>
  C7. In both handlers, when the check permits the draw and the generation client returns
  a truthy URL and a truthy path, the trace holds a file-transfer call if and only if
  \<^verbatim>\<open>nap_server_address\<close> is truthy and not \<^verbatim>\<open>"localhost"\<close>. When it is, the call comes
  right after the generation call, on the returned path; when it is not, the generation call
  is followed directly by the reply built from the returned path itself.
\<close>

theorem file_transfer_iff_remote_nap:
  assumes chk: "check_and_update_limit (rate_limit_config self) ev (now env) (usage_records self)
             = Inr ((True, message), recs, effs)"
    and url: "truthy image_url" and path: "truthy image_path"
  shows "(generate_image_openrouter env (Description d)
             (if use_refs then reference_images ev else []) = Inr (image_url, image_path) \<longrightarrow>
            (list_ex is_send_file (snd (pic_gen env self ev d use_refs))
               \<longleftrightarrow> truthy (nap_server_address self)
                    \<and> nap_server_address self \<noteq> Some ''localhost'')
            \<and> (truthy (nap_server_address self)
                 \<and> nap_server_address self \<noteq> Some ''localhost'' \<longrightarrow>
                 (\<exists>rest. snd (pic_gen env self ev d use_refs)
                    = effs @ [LoadGlobalConfig,
                              GenerateImage (Description d)
                                (if use_refs then reference_images ev else []),
                              SendFile (the image_path)
                                (nap_server_address self) (nap_server_port self)] @ rest))
            \<and> (\<not> (truthy (nap_server_address self)
                    \<and> nap_server_address self \<noteq> Some ''localhost'') \<longrightarrow>
                 snd (pic_gen env self ev d use_refs)
                    = effs @ [LoadGlobalConfig,
                              GenerateImage (Description d)
                                (if use_refs then reference_images ev else [])]
                        @ pic_gen_reply env message (the image_path)))
       \<and> (reference_images ev \<noteq> [] \<longrightarrow>
          generate_image_openrouter env FigurePrompt (reference_images ev)
             = Inr (image_url, image_path) \<longrightarrow>
            (list_ex is_send_file (snd (figure_transform env self ev))
               \<longleftrightarrow> truthy (nap_server_address self)
                    \<and> nap_server_address self \<noteq> Some ''localhost'')
            \<and> (truthy (nap_server_address self)
                 \<and> nap_server_address self \<noteq> Some ''localhost'' \<longrightarrow>
                 (\<exists>rest. snd (figure_transform env self ev)
                    = effs @ [LoadGlobalConfig,
                              GenerateImage FigurePrompt (reference_images ev),
                              SendFile (the image_path)
                                (nap_server_address self) (nap_server_port self)] @ rest))
            \<and> (\<not> (truthy (nap_server_address self)
                    \<and> nap_server_address self \<noteq> Some ''localhost'') \<longrightarrow>
                 snd (figure_transform env self ev)
                    = effs @ [LoadGlobalConfig,
                              GenerateImage FigurePrompt (reference_images ev)]
                        @ figure_reply env message (the image_path)))"
proof -
  note ns = check_effects_no_send [OF chk]
  show ?thesis
  proof (intro conjI impI)
    assume g: "generate_image_openrouter env (Description d)
             (if use_refs then reference_images ev else []) = Inr (image_url, image_path)"
    show "list_ex is_send_file (snd (pic_gen env self ev d use_refs))
               \<longleftrightarrow> truthy (nap_server_address self)
                    \<and> nap_server_address self \<noteq> Some ''localhost''"
      using ns url path g pic_gen_reply_no_send
      by (auto simp: pic_gen_permitted [OF chk] uses_nap_server_def split: sum.splits)
  next
    assume g: "generate_image_openrouter env (Description d)
             (if use_refs then reference_images ev else []) = Inr (image_url, image_path)"
      and n: "truthy (nap_server_address self) \<and> nap_server_address self \<noteq> Some ''localhost''"
    show "\<exists>rest. snd (pic_gen env self ev d use_refs)
                    = effs @ [LoadGlobalConfig,
                              GenerateImage (Description d)
                                (if use_refs then reference_images ev else []),
                              SendFile (the image_path)
                                (nap_server_address self) (nap_server_port self)] @ rest"
      using url path g n
      by (auto simp: pic_gen_permitted [OF chk] uses_nap_server_def split: sum.splits)
  next
    assume g: "generate_image_openrouter env (Description d)
             (if use_refs then reference_images ev else []) = Inr (image_url, image_path)"
      and n: "\<not> (truthy (nap_server_address self) \<and> nap_server_address self \<noteq> Some ''localhost'')"
    show "snd (pic_gen env self ev d use_refs)
                    = effs @ [LoadGlobalConfig,
                              GenerateImage (Description d)
                                (if use_refs then reference_images ev else [])]
                        @ pic_gen_reply env message (the image_path)"
      using url path g n
      by (auto simp: pic_gen_permitted [OF chk] uses_nap_server_def)
  next
    assume ne: "reference_images ev \<noteq> []"
      and g: "generate_image_openrouter env FigurePrompt (reference_images ev)
             = Inr (image_url, image_path)"
    show "list_ex is_send_file (snd (figure_transform env self ev))
               \<longleftrightarrow> truthy (nap_server_address self)
                    \<and> nap_server_address self \<noteq> Some ''localhost''"
      using ns url path g ne figure_reply_no_send
      by (auto simp: figure_permitted [OF chk] uses_nap_server_def split: sum.splits)
  next
    assume ne: "reference_images ev \<noteq> []"
      and g: "generate_image_openrouter env FigurePrompt (reference_images ev)
             = Inr (image_url, image_path)"
      and n: "truthy (nap_server_address self) \<and> nap_server_address self \<noteq> Some ''localhost''"
    show "\<exists>rest. snd (figure_transform env self ev)
                    = effs @ [LoadGlobalConfig,
                              GenerateImage FigurePrompt (reference_images ev),
                              SendFile (the image_path)
                                (nap_server_address self) (nap_server_port self)] @ rest"
      using url path g n ne
      by (auto simp: figure_permitted [OF chk] uses_nap_server_def split: sum.splits)
  next
    assume ne: "reference_images ev \<noteq> []"
      and g: "generate_image_openrouter env FigurePrompt (reference_images ev)
             = Inr (image_url, image_path)"
      and n: "\<not> (truthy (nap_server_address self) \<and> nap_server_address self \<noteq> Some ''localhost'')"
    show "snd (figure_transform env self ev)
                    = effs @ [LoadGlobalConfig,
                              GenerateImage FigurePrompt (reference_images ev)]
                        @ figure_reply env message (the image_path)"
      using url path g n ne
      by (auto simp: figure_permitted [OF chk] uses_nap_server_def)
  qed
qed

theorem file_transfer_iff_remote_nap_witness:
  "truthy (Some ''https://img/a.png'') \<and> truthy (Some ''/tmp/a.png'')
   \<and> list_ex is_send_file (snd (pic_gen env_ok plugin_nap ev_picture ''cat'' True))
   \<and> list_ex is_send_file (snd (figure_transform env_ok plugin_nap ev_picture))
   \<and> \<not> list_ex is_send_file (snd (pic_gen env_ok plugin_localhost ev_picture ''cat'' True))
   \<and> \<not> list_ex is_send_file (snd (figure_transform env_ok plugin_fresh ev_picture))
   \<and> snd (pic_gen env_ok plugin_localhost ev_picture ''cat'' True)
       = [SaveUsageRecords [''user_u1'' \<mapsto> \<lparr>timestamp = Some 1060, count = Some 1\<rparr>],
          LoadGlobalConfig,
          GenerateImage (Description ''cat'') [''aGk='', ''eW8='']]
         @ pic_gen_reply env_ok (UserDrawOk ''u1'' 1) ''/tmp/a.png''
   \<and> snd (figure_transform env_ok plugin_fresh ev_picture)
       = [SaveUsageRecords [''user_u1'' \<mapsto> \<lparr>timestamp = Some 1060, count = Some 1\<rparr>],
          LoadGlobalConfig,
          GenerateImage FigurePrompt [''aGk='', ''eW8='']]
         @ figure_reply env_ok (UserDrawOk ''u1'' 1) ''/tmp/a.png''"
proof -
  have u: "truthy (Some ''https://img/a.png'')" and p: "truthy (Some ''/tmp/a.png'')"
    by simp_all
  have g1: "generate_image_openrouter env_ok (Description ''cat'')
              (if True then reference_images ev_picture else [])
              = Inr (Some ''https://img/a.png'', Some ''/tmp/a.png'')"
    and g2: "generate_image_openrouter env_ok FigurePrompt (reference_images ev_picture)
              = Inr (Some ''https://img/a.png'', Some ''/tmp/a.png'')"
    by (simp_all add: env_ok_def)
  have ne: "reference_images ev_picture \<noteq> []"
    by (simp add: images_picture)
  have nap_nap: "nap_server_address plugin_nap = Some ''10.0.0.2''"
    and nap_localhost: "nap_server_address plugin_localhost = Some ''localhost''"
    and nap_fresh: "nap_server_address plugin_fresh = None"
    by (simp_all add: plugin_nap_def plugin_localhost_def plugin_fresh_def)
  have a: "list_ex is_send_file (snd (pic_gen env_ok plugin_nap ev_picture ''cat'' True))
      \<and> list_ex is_send_file (snd (figure_transform env_ok plugin_nap ev_picture))"
    using file_transfer_iff_remote_nap [OF check_plugin_nap_ok u p, of "''cat''" True] g1 g2 ne
      nap_nap
    by simp
  have b: "\<not> list_ex is_send_file (snd (pic_gen env_ok plugin_localhost ev_picture ''cat'' True))
      \<and> snd (pic_gen env_ok plugin_localhost ev_picture ''cat'' True)
       = [SaveUsageRecords [''user_u1'' \<mapsto> \<lparr>timestamp = Some 1060, count = Some 1\<rparr>],
          LoadGlobalConfig,
          GenerateImage (Description ''cat'') [''aGk='', ''eW8='']]
         @ pic_gen_reply env_ok (UserDrawOk ''u1'' 1) ''/tmp/a.png''"
    using file_transfer_iff_remote_nap [OF check_plugin_localhost_ok u p, of "''cat''" True,
        THEN conjunct1] g1 nap_localhost
    by (simp add: images_picture pic_gen_reply_no_send figure_reply_no_send)
  have c: "\<not> list_ex is_send_file (snd (figure_transform env_ok plugin_fresh ev_picture))
      \<and> snd (figure_transform env_ok plugin_fresh ev_picture)
       = [SaveUsageRecords [''user_u1'' \<mapsto> \<lparr>timestamp = Some 1060, count = Some 1\<rparr>],
          LoadGlobalConfig,
          GenerateImage FigurePrompt [''aGk='', ''eW8='']]
         @ figure_reply env_ok (UserDrawOk ''u1'' 1) ''/tmp/a.png''"
    using file_transfer_iff_remote_nap [OF check_plugin_fresh_ok u p, of "''cat''" True,
        THEN conjunct2] g2 ne nap_fresh
    by (simp add: images_picture pic_gen_reply_no_send figure_reply_no_send)
  from a b c u p show ?thesis by blast
qed

text \<open>
  C8. \<^verbatim>\<open>send_image_with_callback_api\<close> returns an image in every case of the model (its
  result type has no exception). Without a \<^verbatim>\<open>callback_api_base\<close> it returns the local-file
  image of the path and converts nothing. With one, if \<^verbatim>\<open>convert_to_web_link\<close> raises, or
  \<^verbatim>\<open>Image.fromURL\<close> raises on the link, it returns the local-file image of the same path;
  otherwise it returns the image of the link.
\<close>

theorem callback_failure_falls_back:
  "(\<not> truthy (callback_api_base env) \<longrightarrow>
       send_image_with_callback_api env image_path = (FromFileSystem image_path, []))
   \<and> (truthy (callback_api_base env) \<longrightarrow>
       (\<forall>e. convert_to_web_link env image_path = Inl e \<longrightarrow>
          send_image_with_callback_api env image_path
            = (FromFileSystem image_path, [ConvertToWebLink image_path]))
       \<and> (\<forall>url e. convert_to_web_link env image_path = Inr url \<longrightarrow>
          from_url env url = Inl e \<longrightarrow>
          send_image_with_callback_api env image_path
            = (FromFileSystem image_path, [ConvertToWebLink image_path]))
       \<and> (\<forall>url img. convert_to_web_link env image_path = Inr url \<longrightarrow>
          from_url env url = Inr img \<longrightarrow>
          send_image_with_callback_api env image_path
            = (img, [ConvertToWebLink image_path])))"
proof -
  have fb: "callback_fallback e image_path = FromFileSystem image_path" for e
    by (cases e) simp_all
  show ?thesis
    by (simp add: send_image_with_callback_api_def fb)
qed

theorem callback_failure_falls_back_witness:
  "\<not> truthy (callback_api_base env_no_url)
   \<and> send_image_with_callback_api env_no_url ''/tmp/a.png'' = (FromFileSystem ''/tmp/a.png'', [])
   \<and> truthy (callback_api_base env_ok)
   \<and> convert_to_web_link env_ok ''/tmp/a.png'' = Inl (TimeoutError ''slow'')
   \<and> send_image_with_callback_api env_ok ''/tmp/a.png''
       = (FromFileSystem ''/tmp/a.png'', [ConvertToWebLink ''/tmp/a.png''])"
proof -
  have a: "\<not> truthy (callback_api_base env_no_url)"
    by (simp add: env_no_url_def)
  have b: "truthy (callback_api_base env_ok)"
    and c: "convert_to_web_link env_ok ''/tmp/a.png'' = Inl (TimeoutError ''slow'')"
    by (simp_all add: env_ok_def)
  from callback_failure_falls_back [of env_no_url "''/tmp/a.png''"] a
  have d: "send_image_with_callback_api env_no_url ''/tmp/a.png''
             = (FromFileSystem ''/tmp/a.png'', [])"
    by blast
  from callback_failure_falls_back [of env_ok "''/tmp/a.png''"] b c
  have e: "send_image_with_callback_api env_ok ''/tmp/a.png''
       = (FromFileSystem ''/tmp/a.png'', [ConvertToWebLink ''/tmp/a.png''])"
    by blast
  from a b c d e show ?thesis by blast
qed

text \<open>
  C9. A check that returns \<^verbatim>\<open>False\<close> returns the usage-record mapping it was given and
  makes no call of \<^verbatim>\<open>_save_usage_records\<close>: nothing is incremented, no timestamp is
  refreshed, and a record whose window had expired stays in the mapping as it was.
\<close>

theorem denied_leaves_records:
  assumes "check_and_update_limit cfg ev t recs = Inr ((False, m), recs', effs)"
  shows "recs' = recs \<and> effs = []"
  using assms
  by (auto simp: check_and_update_limit_def apply_limit_def Let_def
           split: if_splits option.splits prod.splits sum.splits)

theorem denied_leaves_records_witness:
  "(\<exists>m recs' effs.
      check_and_update_limit cfg_user2 ev_private 1060
        [''user_u1'' \<mapsto> \<lparr>timestamp = Some 1000, count = Some 2\<rparr>]
        = Inr ((False, m), recs', effs)
      \<and> recs' = [''user_u1'' \<mapsto> \<lparr>timestamp = Some 1000, count = Some 2\<rparr>] \<and> effs = [])
   \<and> (\<exists>m recs' effs.
      (of_int (1061 - 1000) :: rat) / 60 > of_int 1
      \<and> check_and_update_limit cfg_zero ev_private 1061
        [''user_u1'' \<mapsto> \<lparr>timestamp = Some 1000, count = Some 7\<rparr>]
        = Inr ((False, m), recs', effs)
      \<and> recs' = [''user_u1'' \<mapsto> \<lparr>timestamp = Some 1000, count = Some 7\<rparr>] \<and> effs = [])"
proof -
  have a: "check_and_update_limit cfg_user2 ev_private 1060
        [''user_u1'' \<mapsto> \<lparr>timestamp = Some 1000, count = Some 2\<rparr>]
        = Inr ((False, LimitReached 2),
               [''user_u1'' \<mapsto> \<lparr>timestamp = Some 1000, count = Some 2\<rparr>], [])"
    by (rule check_at_limit)
  have b: "check_and_update_limit cfg_zero ev_private 1061
        [''user_u1'' \<mapsto> \<lparr>timestamp = Some 1000, count = Some 7\<rparr>]
        = Inr ((False, LimitReached 0),
               [''user_u1'' \<mapsto> \<lparr>timestamp = Some 1000, count = Some 7\<rparr>], [])"
    by (rule check_zero_expired)
  have c: "(of_int (1061 - 1000) :: rat) / 60 > of_int 1" by simp
  from denied_leaves_records [OF a] denied_leaves_records [OF b] a b c
  show ?thesis by blast
qed

text \<open>
  C10, for the draws to which a limit applies. When rate limiting is enabled, a limit is
  resolved and the check permits the draw, the mapping the check returns has, under the
  record key, the count it compared with the limit plus one (that count being 0, or the
  stored one). In both handlers this mapping is the one in memory at the end, whatever the
  generation client, the file transfer and the conversion do; the trace starts with the save
  of this mapping and has no other save; and in \<^verbatim>\<open>pic_gen\<close> the generation call is the
  third entry of the trace and the only one.
\<close>

theorem quota_spent_before_generation:
  assumes en: "enabled (rate_limit_config self) = Some True"
    and lim: "resolve_limit (rate_limit_config self) ev = Some (limit, ltype)"
    and chk: "check_and_update_limit (rate_limit_config self) ev (now env) (usage_records self)
             = Inr ((True, message), recs, effs)"
  shows "(\<exists>c. c < limit
            \<and> recs = (usage_records self)(record_key ev \<mapsto>
                        \<lparr>timestamp = Some (now env), count = Some (c + 1)\<rparr>)
            \<and> (c = 0 \<or> (\<exists>r. usage_records self (record_key ev) = Some r \<and> count r = Some c)))
       \<and> usage_records (fst (pic_gen env self ev d use_refs)) = recs
       \<and> (\<exists>rest. snd (pic_gen env self ev d use_refs)
              = [SaveUsageRecords recs, LoadGlobalConfig,
                 GenerateImage (Description d) (if use_refs then reference_images ev else [])]
                @ rest
            \<and> \<not> list_ex is_save rest \<and> \<not> list_ex is_generate rest)
       \<and> usage_records (fst (figure_transform env self ev)) = recs
       \<and> (\<exists>rest. snd (figure_transform env self ev) = SaveUsageRecords recs # rest
            \<and> \<not> list_ex is_save rest)"
proof -
  note p = check_permitted_increment [OF en lim chk]
  from p have effs: "effs = [SaveUsageRecords recs]" by simp
  have a: "usage_records (fst (pic_gen env self ev d use_refs)) = recs"
    by (simp add: pic_gen_permitted [OF chk])
  have b: "usage_records (fst (figure_transform env self ev)) = recs"
    by (simp add: figure_permitted [OF chk])
  have c: "\<exists>rest. snd (pic_gen env self ev d use_refs)
              = [SaveUsageRecords recs, LoadGlobalConfig,
                 GenerateImage (Description d) (if use_refs then reference_images ev else [])]
                @ rest
            \<and> \<not> list_ex is_save rest \<and> \<not> list_ex is_generate rest"
    using pic_gen_reply_no_save pic_gen_reply_no_generate
    by (auto simp: pic_gen_permitted [OF chk] effs split: sum.splits)
  have d: "\<exists>rest. snd (figure_transform env self ev) = SaveUsageRecords recs # rest
            \<and> \<not> list_ex is_save rest"
    using figure_reply_no_save
    by (auto simp: figure_permitted [OF chk] effs split: sum.splits)
  from p a b c d show ?thesis by blast
qed

theorem quota_spent_before_generation_witness:
  "enabled (rate_limit_config plugin_fresh) = Some True
   \<and> resolve_limit (rate_limit_config plugin_fresh) ev_picture = Some (2, UserLimit)
   \<and> generate_image_openrouter env_raises (Description ''cat'') (reference_images ev_picture)
       = Inl (OtherException ''quota'')
   \<and> usage_records (fst (pic_gen env_raises plugin_fresh ev_picture ''cat'' True))
       = [''user_u1'' \<mapsto> \<lparr>timestamp = Some 1060, count = Some 1\<rparr>]
   \<and> usage_records (fst (figure_transform env_raises plugin_fresh ev_picture))
       = [''user_u1'' \<mapsto> \<lparr>timestamp = Some 1060, count = Some 1\<rparr>]
   \<and> (\<exists>rest. snd (pic_gen env_raises plugin_fresh ev_picture ''cat'' True)
         = [SaveUsageRecords [''user_u1'' \<mapsto> \<lparr>timestamp = Some 1060, count = Some 1\<rparr>],
            LoadGlobalConfig,
            GenerateImage (Description ''cat'') [''aGk='', ''eW8='']] @ rest
        \<and> \<not> list_ex is_save rest \<and> \<not> list_ex is_generate rest)
   \<and> (\<exists>rest. snd (figure_transform env_raises plugin_fresh ev_picture)
         = SaveUsageRecords [''user_u1'' \<mapsto> \<lparr>timestamp = Some 1060, count = Some 1\<rparr>] # rest
        \<and> \<not> list_ex is_save rest)"
proof -
  have e: "enabled (rate_limit_config plugin_fresh) = Some True"
    and r: "resolve_limit (rate_limit_config plugin_fresh) ev_picture = Some (2, UserLimit)"
    by (simp_all add: plugin_fresh_def enabled_user2 resolve_user2_picture)
  have g: "generate_image_openrouter env_raises (Description ''cat'') (reference_images ev_picture)
       = Inl (OtherException ''quota'')"
    by (simp add: env_raises_def)
  from quota_spent_before_generation [OF e r check_plugin_fresh_raises, of "''cat''" True] e r g
  show ?thesis by (simp add: images_picture)
qed

text \<open>
  C10 does not extend to every draw that passes the check. A draw to which no limit applies
  passes it and has no usage record: with the empty configuration the check of
  \<^verbatim>\<open>pic_gen\<close> returns \<^verbatim>\<open>(True, "")\<close> and the generation client is called, yet the
  mapping is as it was, it has no record for the sender, and nothing is saved.
\<close>

theorem quota_spent_unlimited_counterexample:
  "map_sum id fst
      (check_and_update_limit (rate_limit_config plugin_unlimited) ev_picture (now env_raises)
         (usage_records plugin_unlimited))
     = Inr (True, NoMessage)
   \<and> snd (pic_gen env_raises plugin_unlimited ev_picture ''cat'' True)
       = [LoadGlobalConfig, GenerateImage (Description ''cat'') [''aGk='', ''eW8=''],
          Yield (PlainResult (GenFailedExc (OtherException ''quota'')))]
   \<and> usage_records (fst (pic_gen env_raises plugin_unlimited ev_picture ''cat'' True))
       = usage_records plugin_unlimited
   \<and> usage_records (fst (pic_gen env_raises plugin_unlimited ev_picture ''cat'' True))
         (record_key ev_picture) = None
   \<and> \<not> list_ex is_save (snd (pic_gen env_raises plugin_unlimited ev_picture ''cat'' True))"
proof -
  have c: "check_and_update_limit (rate_limit_config plugin_unlimited) ev_picture (now env_raises)
         (usage_records plugin_unlimited)
       = Inr ((True, NoMessage), usage_records plugin_unlimited, [])"
    by (simp add: check_disabled plugin_unlimited_def cfg_default_def)
  have g: "generate_image_openrouter env_raises (Description ''cat'') [''aGk='', ''eW8='']
       = Inl (OtherException ''quota'')"
    by (simp add: env_raises_def)
  have p: "pic_gen env_raises plugin_unlimited ev_picture ''cat'' True
       = (plugin_unlimited,
          [LoadGlobalConfig, GenerateImage (Description ''cat'') [''aGk='', ''eW8=''],
           Yield (PlainResult (GenFailedExc (OtherException ''quota'')))])"
    by (simp add: pic_gen_permitted [OF c] images_picture g)
  have e: "usage_records plugin_unlimited (record_key ev_picture) = None"
    by (simp add: plugin_unlimited_def)
  show ?thesis
    by (simp add: c p e)
qed

end
